theory Spec2Isabelle
  imports Main "HOL-Library.Char_ord" "HOL-Library.List_Lexorder" "HOL-Library.Product_Lexorder"
begin

section \<open>Data classes of gitpulse.py\<close>

text \<open>
  Python's \<open>int\<close> is unbounded and is modelled by \<open>int\<close>; \<open>str\<close> is modelled by
  \<open>string\<close>, one \<open>char\<close> per character (texts are taken over single-byte characters).
  Every field default of the dataclasses is written out in the constructors below.
\<close>

record BranchInfo =
  branch_name :: string
  branch_is_current :: bool
  branch_last_commit_date :: string
  branch_last_commit_age_days :: int
  branch_ahead :: int
  branch_behind :: int
  branch_tracking :: string

definition new_BranchInfo :: "string \<Rightarrow> bool \<Rightarrow> string \<Rightarrow> BranchInfo" where
  "new_BranchInfo n cur tr =
     \<lparr> branch_name = n, branch_is_current = cur, branch_last_commit_date = [],
       branch_last_commit_age_days = 0, branch_ahead = 0, branch_behind = 0,
       branch_tracking = tr \<rparr>"

record RepoStatus =
  name :: string
  path :: string
  current_branch :: string
  staged_count :: int
  modified_count :: int
  untracked_count :: int
  deleted_count :: int
  conflict_count :: int
  stash_count :: int
  ahead :: int
  behind :: int
  has_remote :: bool
  remote_url :: string
  last_commit_date :: string
  last_commit_age_days :: int
  last_commit_message :: string
  total_commits :: int
  branch_count :: int
  tag_count :: int
  is_dirty :: bool
  is_detached :: bool
  health_score :: int
  health_grade :: string
  issues :: "string list"
  error :: string

definition new_RepoStatus :: "string \<Rightarrow> string \<Rightarrow> RepoStatus" where
  "new_RepoStatus n p =
     \<lparr> name = n, path = p, current_branch = [], staged_count = 0, modified_count = 0,
       untracked_count = 0, deleted_count = 0, conflict_count = 0, stash_count = 0,
       ahead = 0, behind = 0, has_remote = False, remote_url = [],
       last_commit_date = [], last_commit_age_days = 0, last_commit_message = [],
       total_commits = 0, branch_count = 0, tag_count = 0, is_dirty = False,
       is_detached = False, health_score = 100, health_grade = ''A'', issues = [],
       error = [] \<rparr>"

record ScanResult =
  root_dir :: string
  scan_time :: string
  total_repos :: int
  healthy_count :: int
  warning_count :: int
  critical_count :: int
  error_count :: int
  repos :: "RepoStatus list"
  scan_duration_ms :: int

definition new_ScanResult :: "string \<Rightarrow> string \<Rightarrow> ScanResult" where
  "new_ScanResult r t =
     \<lparr> root_dir = r, scan_time = t, total_repos = 0, healthy_count = 0, warning_count = 0,
       critical_count = 0, error_count = 0, repos = [], scan_duration_ms = 0 \<rparr>"

section \<open>Python text primitives used by the code\<close>

text \<open>\<open>str(n)\<close> and the \<open>{n}\<close> of an f-string: decimal digits, a minus sign when negative.\<close>

definition digit_char :: "nat \<Rightarrow> char" where
  "digit_char d = char_of (48 + d)"

fun str_nat :: "nat \<Rightarrow> string" where
  "str_nat n = (if n < 10 then [digit_char n] else str_nat (n div 10) @ [digit_char (n mod 10)])"

declare str_nat.simps [simp del]

definition str_int :: "int \<Rightarrow> string" where
  "str_int i = (if i < 0 then CHR ''-'' # str_nat (nat (- i)) else str_nat (nat i))"

section \<open>Health scorer: \<open>GitPulse._calculate_health\<close>\<close>

text \<open>
  The method keeps two locals, \<open>score\<close> and \<open>issues\<close>, and runs eleven \<open>if\<close> statements over
  them; each statement is one \<open>let\<close> below, in the source's order. \<open>issues.append(t)\<close> is
  \<open>issues @ [t]\<close>.
\<close>

definition calculate_health :: "RepoStatus \<Rightarrow> int \<times> string \<times> string list" where
  "calculate_health status =
    (let score = (100::int); issues = ([]::string list);
         (score, issues) =
           (if \<not> has_remote status
            then (score - 15, issues @ [''No remote configured''])
            else (score, issues));
         (score, issues) =
           (if staged_count status > 0 \<or> modified_count status > 0
            then (let changes = staged_count status + modified_count status
                  in (score - 10, issues @ [str_int changes @ '' uncommitted change(s)'']))
            else (score, issues));
         (score, issues) =
           (if untracked_count status > 0
            then (score - 5, issues @ [str_int (untracked_count status) @ '' untracked file(s)''])
            else (score, issues));
         (score, issues) =
           (if deleted_count status > 0
            then (score - 5, issues @ [str_int (deleted_count status) @ '' deleted file(s)''])
            else (score, issues));
         (score, issues) =
           (if behind status > 0
            then (score - 10, issues @ [str_int (behind status) @ '' commit(s) behind remote''])
            else (score, issues));
         (score, issues) =
           (if ahead status > 0 \<and> ahead status > 5
            then (score - 5, issues @ [str_int (ahead status) @ '' unpushed commit(s)''])
            else (score, issues));
         (score, issues) =
           (if last_commit_age_days status > 90
            then (score - 20, issues @ [''Very stale: '' @ str_int (last_commit_age_days status)
                                         @ '' days since last commit''])
            else if last_commit_age_days status > 30
            then (score - 10, issues @ [''Stale: '' @ str_int (last_commit_age_days status)
                                         @ '' days since last commit''])
            else (score, issues));
         (score, issues) =
           (if is_detached status
            then (score - 5, issues @ [''Detached HEAD state''])
            else (score, issues));
         (score, issues) =
           (if conflict_count status > 0
            then (score - 20, issues @ [str_int (conflict_count status) @ '' merge conflict(s)''])
            else (score, issues));
         (score, issues) =
           (if total_commits status = 0
            then (score - 30, issues @ [''No commits yet''])
            else (score, issues));
         (score, issues) =
           (if stash_count status > 0
            then (score - 3, issues @ [str_int (stash_count status) @ '' stash(es) pending''])
            else (score, issues));
         score = max 0 score;
         grade = (if score \<ge> 90 then ''A''
                  else if score \<ge> 80 then ''B''
                  else if score \<ge> 70 then ''C''
                  else if score \<ge> 60 then ''D''
                  else ''F'')
     in (score, grade, issues))"

subsection \<open>The rule table of the specification\<close>

text \<open>
  The table of rules as the specification words it: a condition, a penalty and an issue
  text per row, in the fixed evaluation order; the stale row fires only when the
  very-stale row does not.
\<close>

definition penalty_table :: "RepoStatus \<Rightarrow> (bool \<times> int \<times> string) list" where
  "penalty_table s =
    [ (\<not> has_remote s, 15, ''No remote configured''),
      (staged_count s > 0 \<or> modified_count s > 0, 10,
         str_int (staged_count s + modified_count s) @ '' uncommitted change(s)''),
      (untracked_count s > 0, 5, str_int (untracked_count s) @ '' untracked file(s)''),
      (deleted_count s > 0, 5, str_int (deleted_count s) @ '' deleted file(s)''),
      (behind s > 0, 10, str_int (behind s) @ '' commit(s) behind remote''),
      (ahead s > 5, 5, str_int (ahead s) @ '' unpushed commit(s)''),
      (last_commit_age_days s > 90, 20,
         ''Very stale: '' @ str_int (last_commit_age_days s) @ '' days since last commit''),
      (\<not> last_commit_age_days s > 90 \<and> last_commit_age_days s > 30, 10,
         ''Stale: '' @ str_int (last_commit_age_days s) @ '' days since last commit''),
      (is_detached s, 5, ''Detached HEAD state''),
      (conflict_count s > 0, 20, str_int (conflict_count s) @ '' merge conflict(s)''),
      (total_commits s = 0, 30, ''No commits yet''),
      (stash_count s > 0, 3, str_int (stash_count s) @ '' stash(es) pending'') ]"

definition triggered :: "RepoStatus \<Rightarrow> (bool \<times> int \<times> string) list" where
  "triggered s = filter fst (penalty_table s)"

definition penalty_sum :: "RepoStatus \<Rightarrow> int" where
  "penalty_sum s = sum_list (map (\<lambda>r. fst (snd r)) (triggered s))"

definition triggered_issues :: "RepoStatus \<Rightarrow> string list" where
  "triggered_issues s = map (\<lambda>r. snd (snd r)) (triggered s)"

definition grade_of :: "int \<Rightarrow> string" where
  "grade_of score =
     (if score \<ge> 90 then ''A'' else if score \<ge> 80 then ''B''
      else if score \<ge> 70 then ''C'' else if score \<ge> 60 then ''D'' else ''F'')"

text \<open>
  The record of \<open>test_score_never_negative\<close>, with \<open>behind\<close> and \<open>ahead\<close> set as well so that
  every rule of the scorer fires.
\<close>

definition worst_status :: RepoStatus where
  "worst_status =
     (new_RepoStatus ''worst'' ''/tmp/worst'')
       \<lparr> has_remote := False, total_commits := 0, modified_count := 10,
         untracked_count := 20, deleted_count := 5, conflict_count := 3,
         last_commit_age_days := 365, is_detached := True, stash_count := 10,
         behind := 2, ahead := 7 \<rparr>"

section \<open>Text primitives of Python used by the status extractor\<close>

text \<open>\<open>str.isspace\<close> on the characters below 256.\<close>

definition isspace :: "char \<Rightarrow> bool" where
  "isspace c = ((of_char c :: nat) \<in> {9, 10, 11, 12, 13, 28, 29, 30, 31, 32, 133, 160})"

definition strip :: "string \<Rightarrow> string" where
  "strip s = rev (dropWhile isspace (rev (dropWhile isspace s)))"

text \<open>\<open>s.split(sep)\<close> for a one-character separator: \<open>''''.split(sep) = ['''']\<close>.\<close>

fun split_on :: "char \<Rightarrow> string \<Rightarrow> string list" where
  "split_on sep [] = [[]]"
| "split_on sep (c # cs) =
     (if c = sep then [] # split_on sep cs
      else (case split_on sep cs of w # ws \<Rightarrow> (c # w) # ws | [] \<Rightarrow> [[c]]))"

definition split_lines :: "string \<Rightarrow> string list" where
  "split_lines s = split_on (CHR 0x0A) s"

text \<open>\<open>s.split()\<close>: the maximal runs of non-space characters.\<close>

fun split_ws :: "string \<Rightarrow> string list" where
  "split_ws [] = []"
| "split_ws (c # cs) =
     (if isspace c then split_ws cs
      else (case cs of
              [] \<Rightarrow> [[c]]
            | d # _ \<Rightarrow>
                if isspace d then [c] # split_ws cs
                else (case split_ws cs of w # ws \<Rightarrow> (c # w) # ws | [] \<Rightarrow> [[c]])))"

text \<open>\<open>s.split(sep, 1)\<close> for a non-empty separator: cut at the first occurrence.\<close>

fun partition_sep :: "string \<Rightarrow> string \<Rightarrow> (string \<times> string) option" where
  "partition_sep sep [] = None"
| "partition_sep sep (c # cs) =
     (if take (length sep) (c # cs) = sep then Some ([], drop (length sep) (c # cs))
      else (case partition_sep sep cs of
              None \<Rightarrow> None
            | Some (a, b) \<Rightarrow> Some (c # a, b)))"

definition split_max1 :: "string \<Rightarrow> string \<Rightarrow> string list" where
  "split_max1 sep s = (case partition_sep sep s of None \<Rightarrow> [s] | Some (a, b) \<Rightarrow> [a, b])"

text \<open>
  \<open>int(s)\<close> in base ten: surrounding whitespace is dropped, then an optional sign, then
  decimal digits that may be separated by single underscores. \<open>None\<close> is \<open>ValueError\<close>.
  (The interpreter's cap on the number of digits is not modelled.)
\<close>

definition is_digit :: "char \<Rightarrow> bool" where
  "is_digit c = (CHR ''0'' \<le> c \<and> c \<le> CHR ''9'')"

definition digit_val :: "char \<Rightarrow> nat" where
  "digit_val c = of_char c - 48"

fun parse_digits :: "nat \<Rightarrow> string \<Rightarrow> nat option" where
  "parse_digits acc [] = Some acc"
| "parse_digits acc (c # cs) =
     (if is_digit c then parse_digits (10 * acc + digit_val c) cs
      else if c = CHR ''_'' then
        (case cs of
           [] \<Rightarrow> None
         | d # ds \<Rightarrow> if is_digit d then parse_digits (10 * acc + digit_val d) ds else None)
      else None)"

definition parse_unsigned :: "string \<Rightarrow> nat option" where
  "parse_unsigned s =
     (case s of [] \<Rightarrow> None
      | c # cs \<Rightarrow> if is_digit c then parse_digits (digit_val c) cs else None)"

definition py_int :: "string \<Rightarrow> int option" where
  "py_int s =
     (case strip s of
        [] \<Rightarrow> None
      | c # cs \<Rightarrow>
          if c = CHR ''-'' then map_option (\<lambda>n. - int n) (parse_unsigned cs)
          else if c = CHR ''+'' then map_option int (parse_unsigned cs)
          else map_option int (parse_unsigned (c # cs)))"

section \<open>Paths, the process runner and the clock\<close>

text \<open>
  A \<open>Path\<close> is the list of its components below the file-system root; \<open>p / n\<close> is
  \<open>p @ [n]\<close>, \<open>p.name\<close> the last component, \<open>str(p)\<close> the components joined by slashes.
\<close>

type_synonym pypath = "string list"

definition path_name :: "pypath \<Rightarrow> string" where
  "path_name p = (if p = [] then [] else last p)"

definition path_str :: "pypath \<Rightarrow> string" where
  "path_str p = (if p = [] then ''/'' else concat (map (\<lambda>c. CHR ''/'' # c) p))"

datatype py_exception =
    IndexError
  | ValueError string
  | FileNotFoundError string
  | PermissionError
  | OSError

text \<open>What \<open>subprocess.run\<close> does with a command line: it completes with output, error
  text and exit code, or raises one of the three exceptions \<open>_run_git\<close> handles.\<close>

datatype proc_result =
    Completed string string int
  | TimeoutExpired
  | FileNotFound
  | OtherException string

text \<open>A parsed \<open>datetime\<close>: its wall-clock reading in microseconds and, when the text
  carried one, its offset from UTC in microseconds.\<close>

record pydatetime =
  wall_us :: int
  utcoffset_us :: "int option"

text \<open>
  Everything outside the program that the extractor consults: the answers of the
  subprocesses, the commands issued so far (each \<open>_run_git\<close> call appends its arguments),
  the reading of \<open>datetime.now(timezone.utc)\<close> in microseconds, and the library parser
  \<open>datetime.fromisoformat\<close> (\<open>None\<close> where it raises).
\<close>

record runtime =
  subprocess_run :: "string list \<Rightarrow> proc_result"
  issued :: "string list list"
  utc_now_us :: int
  fromisoformat :: "string \<Rightarrow> pydatetime option"

definition run_git :: "runtime \<Rightarrow> pypath \<Rightarrow> string list \<Rightarrow> (string \<times> string \<times> int) \<times> runtime" where
  "run_git rt repo_path args =
     (let cmd = [''git'', ''-C'', path_str repo_path] @ args;
          rt' = rt\<lparr>issued := issued rt @ [args]\<rparr>
      in case subprocess_run rt cmd of
           Completed out err rc \<Rightarrow> ((strip out, strip err, rc), rt')
         | TimeoutExpired \<Rightarrow> (([], ''Command timed out'', 1), rt')
         | FileNotFound \<Rightarrow> (([], ''git not found in PATH'', 127), rt')
         | OtherException msg \<Rightarrow> (([], msg, 1), rt'))"

section \<open>Status extractor: \<open>GitPulse._get_repo_status\<close>\<close>

subsection \<open>Current branch\<close>

definition read_current_branch :: "runtime \<Rightarrow> pypath \<Rightarrow> RepoStatus \<Rightarrow> RepoStatus \<times> runtime" where
  "read_current_branch rt repo_path status =
     (let ((stdout, _, rc), rt) = run_git rt repo_path [''branch'', ''--show-current'']
      in if rc = 0 \<and> stdout \<noteq> [] then (status\<lparr>current_branch := stdout\<rparr>, rt)
         else (let ((stdout2, _, rc2), rt) = run_git rt repo_path [''rev-parse'', ''--short'', ''HEAD'']
               in if rc2 = 0
                  then (status\<lparr>current_branch := ''(detached at '' @ stdout2 @ '')'',
                               is_detached := True\<rparr>, rt)
                  else (status\<lparr>current_branch := ''(unknown)''\<rparr>, rt)))"

subsection \<open>Porcelain status for file counts\<close>

text \<open>\<open>line[i]\<close> raises \<open>IndexError\<close> out of range.\<close>

definition getitem :: "string \<Rightarrow> nat \<Rightarrow> py_exception + char" where
  "getitem s i = (if i < length s then Inr (s ! i) else Inl IndexError)"

text \<open>The body of the \<open>for line in stdout.split\<close> loop.\<close>

definition classify_line :: "RepoStatus \<Rightarrow> string \<Rightarrow> py_exception + RepoStatus" where
  "classify_line status line =
     (if length line \<ge> 2 then
        (case getitem line 0 of
           Inl e \<Rightarrow> Inl e
         | Inr x \<Rightarrow>
            (case getitem line 1 of
               Inl e \<Rightarrow> Inl e
             | Inr y \<Rightarrow>
                 Inr (if x = CHR ''?'' \<and> y = CHR ''?''
                      then status\<lparr>untracked_count := untracked_count status + 1\<rparr>
                      else if x = CHR ''U'' \<or> y = CHR ''U'' \<or> (x = CHR ''A'' \<and> y = CHR ''A'')
                              \<or> (x = CHR ''D'' \<and> y = CHR ''D'')
                      then status\<lparr>conflict_count := conflict_count status + 1\<rparr>
                      else
                        (let status = (if x \<in> set [CHR ''A'', CHR ''M'', CHR ''R'', CHR ''C'']
                                       then status\<lparr>staged_count := staged_count status + 1\<rparr>
                                       else status);
                             status = (if x = CHR ''D''
                                       then status\<lparr>deleted_count := deleted_count status + 1\<rparr>
                                       else status);
                             status = (if y = CHR ''M''
                                       then status\<lparr>modified_count := modified_count status + 1\<rparr>
                                       else status);
                             status = (if y = CHR ''D''
                                       then status\<lparr>deleted_count := deleted_count status + 1\<rparr>
                                       else status)
                         in status))))
      else Inr status)"

fun classify_lines :: "RepoStatus \<Rightarrow> string list \<Rightarrow> py_exception + RepoStatus" where
  "classify_lines status [] = Inr status"
| "classify_lines status (line # rest) =
     (case classify_line status line of
        Inl e \<Rightarrow> Inl e
      | Inr status' \<Rightarrow> classify_lines status' rest)"

definition read_porcelain ::
  "runtime \<Rightarrow> pypath \<Rightarrow> RepoStatus \<Rightarrow> py_exception + (RepoStatus \<times> runtime)" where
  "read_porcelain rt repo_path status =
     (let ((stdout, _, rc), rt) = run_git rt repo_path [''status'', ''--porcelain=v1'']
      in if rc = 0 \<and> stdout \<noteq> []
         then (case classify_lines status (split_lines stdout) of
                 Inl e \<Rightarrow> Inl e
               | Inr status' \<Rightarrow> Inr (status', rt))
         else Inr (status, rt))"

definition set_is_dirty :: "RepoStatus \<Rightarrow> RepoStatus" where
  "set_is_dirty status =
     status\<lparr>is_dirty := (staged_count status > 0 \<or> modified_count status > 0
                          \<or> untracked_count status > 0 \<or> deleted_count status > 0
                          \<or> conflict_count status > 0)\<rparr>"

subsection \<open>Remote info\<close>

definition read_remote :: "runtime \<Rightarrow> pypath \<Rightarrow> RepoStatus \<Rightarrow> RepoStatus \<times> runtime" where
  "read_remote rt repo_path status =
     (let ((stdout, _, rc), rt) = run_git rt repo_path [''remote'', ''-v'']
      in if rc = 0 \<and> stdout \<noteq> [] then
           (let status = status\<lparr>has_remote := True\<rparr>;
                lines = split_lines stdout
            in case lines of
                 [] \<Rightarrow> (status, rt)
               | l # _ \<Rightarrow>
                   (case split_ws l of
                      _ # url # _ \<Rightarrow> (status\<lparr>remote_url := url\<rparr>, rt)
                    | _ \<Rightarrow> (status, rt)))
         else (status\<lparr>has_remote := False\<rparr>, rt))"

subsection \<open>Ahead/behind\<close>

text \<open>The text the f-string appends to the branch name: an at sign, then \<open>{upstream}...HEAD\<close>.\<close>

definition upstream_range :: string where
  "upstream_range = CHR ''@'' # ''{upstream}...HEAD''"

text \<open>
  The two assignments sit in one \<open>try\<close>: \<open>behind\<close> is stored before \<open>int(parts[1])\<close> is
  evaluated, and the handler of \<open>ValueError\<close> only passes.
\<close>

definition read_ahead_behind :: "runtime \<Rightarrow> pypath \<Rightarrow> RepoStatus \<Rightarrow> RepoStatus \<times> runtime" where
  "read_ahead_behind rt repo_path status =
     (if has_remote status \<and> \<not> is_detached status then
        (let ((stdout, _, rc), rt) =
               run_git rt repo_path
                 [''rev-list'', ''--left-right'', ''--count'',
                  current_branch status @ upstream_range]
         in if rc = 0 \<and> stdout \<noteq> [] then
              (case split_ws stdout of
                 [p0, p1] \<Rightarrow>
                   (case py_int p0 of
                      None \<Rightarrow> (status, rt)
                    | Some b \<Rightarrow>
                        (let status = status\<lparr>behind := b\<rparr>
                         in case py_int p1 of
                              None \<Rightarrow> (status, rt)
                            | Some a \<Rightarrow> (status\<lparr>ahead := a\<rparr>, rt)))
               | _ \<Rightarrow> (status, rt))
            else (status, rt))
      else (status, rt))"

subsection \<open>Last commit info\<close>

text \<open>
  \<open>delta = now - commit_dt\<close> with both sides aware (a naive \<open>commit_dt\<close> is taken as UTC);
  \<open>delta.days\<close> is the floor of the difference in days. \<open>None\<close> is the \<open>except\<close> branch.
\<close>

definition commit_age_days :: "runtime \<Rightarrow> string \<Rightarrow> int option" where
  "commit_age_days rt text =
     (case fromisoformat rt text of
        None \<Rightarrow> None
      | Some commit_dt \<Rightarrow>
          (let now = utc_now_us rt;
               commit_utc = (case utcoffset_us commit_dt of
                               None \<Rightarrow> wall_us commit_dt
                             | Some off \<Rightarrow> wall_us commit_dt - off);
               delta = now - commit_utc
           in Some (delta div 86400000000)))"

definition read_last_commit :: "runtime \<Rightarrow> pypath \<Rightarrow> RepoStatus \<Rightarrow> RepoStatus \<times> runtime" where
  "read_last_commit rt repo_path status =
     (let ((stdout, _, rc), rt) = run_git rt repo_path [''log'', ''-1'', ''--format=%aI|||%s'']
      in if rc = 0 \<and> stdout \<noteq> [] then
           (case split_max1 ''|||'' stdout of
              [p0, p1] \<Rightarrow>
                (let status = status\<lparr>last_commit_date := p0,
                                      last_commit_message := take 120 p1\<rparr>
                 in case commit_age_days rt p0 of
                      None \<Rightarrow> (status, rt)
                    | Some d \<Rightarrow> (status\<lparr>last_commit_age_days := d\<rparr>, rt))
            | _ \<Rightarrow> (status, rt))
         else (status, rt))"

subsection \<open>Total commits, branch, tag and stash counts\<close>

definition read_total_commits :: "runtime \<Rightarrow> pypath \<Rightarrow> RepoStatus \<Rightarrow> RepoStatus \<times> runtime" where
  "read_total_commits rt repo_path status =
     (let ((stdout, _, rc), rt) = run_git rt repo_path [''rev-list'', ''--count'', ''HEAD'']
      in if rc = 0 \<and> stdout \<noteq> [] then
           (case py_int stdout of
              None \<Rightarrow> (status, rt)
            | Some n \<Rightarrow> (status\<lparr>total_commits := n\<rparr>, rt))
         else (status, rt))"

definition count_nonblank :: "string \<Rightarrow> int" where
  "count_nonblank stdout = int (length (filter (\<lambda>b. strip b \<noteq> []) (split_lines stdout)))"

definition read_branch_count :: "runtime \<Rightarrow> pypath \<Rightarrow> RepoStatus \<Rightarrow> RepoStatus \<times> runtime" where
  "read_branch_count rt repo_path status =
     (let ((stdout, _, rc), rt) = run_git rt repo_path [''branch'', ''--list'']
      in if rc = 0 \<and> stdout \<noteq> [] then (status\<lparr>branch_count := count_nonblank stdout\<rparr>, rt)
         else (status, rt))"

definition read_tag_count :: "runtime \<Rightarrow> pypath \<Rightarrow> RepoStatus \<Rightarrow> RepoStatus \<times> runtime" where
  "read_tag_count rt repo_path status =
     (let ((stdout, _, rc), rt) = run_git rt repo_path [''tag'', ''--list'']
      in if rc = 0 \<and> stdout \<noteq> [] then (status\<lparr>tag_count := count_nonblank stdout\<rparr>, rt)
         else (status, rt))"

definition read_stash_count :: "runtime \<Rightarrow> pypath \<Rightarrow> RepoStatus \<Rightarrow> RepoStatus \<times> runtime" where
  "read_stash_count rt repo_path status =
     (let ((stdout, _, rc), rt) = run_git rt repo_path [''stash'', ''list'']
      in if rc = 0 \<and> stdout \<noteq> [] then (status\<lparr>stash_count := count_nonblank stdout\<rparr>, rt)
         else (status, rt))"

subsection \<open>The whole method\<close>

definition set_health :: "RepoStatus \<Rightarrow> RepoStatus" where
  "set_health status =
     (let (score, grade, iss) = calculate_health status
      in status\<lparr>health_score := score, health_grade := grade, issues := iss\<rparr>)"

definition get_repo_status :: "runtime \<Rightarrow> pypath \<Rightarrow> py_exception + (RepoStatus \<times> runtime)" where
  "get_repo_status rt repo_path =
     (let status = new_RepoStatus (path_name repo_path) (path_str repo_path);
          ((stdout, stderr, rc), rt) = run_git rt repo_path [''rev-parse'', ''--git-dir'']
      in if rc \<noteq> 0
         then Inr (status\<lparr>error := ''Not a valid git repo: '' @ stderr,
                          health_score := 0, health_grade := ''F''\<rparr>, rt)
         else
           (let (status, rt) = read_current_branch rt repo_path status
            in case read_porcelain rt repo_path status of
                 Inl e \<Rightarrow> Inl e
               | Inr (status, rt) \<Rightarrow>
                   (let status = set_is_dirty status;
                        (status, rt) = read_remote rt repo_path status;
                        (status, rt) = read_ahead_behind rt repo_path status;
                        (status, rt) = read_last_commit rt repo_path status;
                        (status, rt) = read_total_commits rt repo_path status;
                        (status, rt) = read_branch_count rt repo_path status;
                        (status, rt) = read_tag_count rt repo_path status;
                        (status, rt) = read_stash_count rt repo_path status
                    in Inr (set_health status, rt))))"

subsection \<open>The age block of \<open>GitPulse.get_branches\<close>\<close>

text \<open>The statements that fill \<open>last_commit_date\<close> and \<open>last_commit_age_days\<close> of one branch.\<close>

definition read_branch_age :: "runtime \<Rightarrow> pypath \<Rightarrow> BranchInfo \<Rightarrow> BranchInfo \<times> runtime" where
  "read_branch_age rt repo_path branch =
     (let ((stdout2, _, rc2), rt) =
            run_git rt repo_path [''log'', ''-1'', ''--format=%aI'', branch_name branch]
      in if rc2 = 0 \<and> stdout2 \<noteq> [] then
           (let branch = branch\<lparr>branch_last_commit_date := stdout2\<rparr>
            in case commit_age_days rt stdout2 of
                 None \<Rightarrow> (branch, rt)
               | Some d \<Rightarrow> (branch\<lparr>branch_last_commit_age_days := d\<rparr>, rt))
         else (branch, rt))"

section \<open>Repository locator: \<open>GitPulse._find_repos\<close>\<close>

text \<open>
  The file system as the locator sees it. Each operation either answers or raises an
  \<open>OSError\<close> (\<open>PermissionError\<close> is one); \<open>iterdir\<close> answers with the names of the
  entries in the order the system lists them.
\<close>

datatype os_error = PermissionDenied | OtherOSFailure

record filesystem =
  fs_resolve :: "string \<Rightarrow> pypath"
  fs_exists :: "pypath \<Rightarrow> os_error + bool"
  fs_is_dir :: "pypath \<Rightarrow> os_error + bool"
  fs_iterdir :: "pypath \<Rightarrow> os_error + string list"

definition skip_names :: "string list" where
  "skip_names = [''node_modules'', ''__pycache__'', ''venv'', ''.venv'', ''env'', ''.env'',
                 ''vendor'', ''build'', ''dist'', ''target'']"

definition startswith_dot :: "string \<Rightarrow> bool" where
  "startswith_dot n = (case n of [] \<Rightarrow> False | c # _ \<Rightarrow> c = CHR ''.'')"

text \<open>\<open>git_dir.exists() and git_dir.is_dir()\<close> for \<open>git_dir = root / ".git"\<close>.\<close>

definition has_marker :: "filesystem \<Rightarrow> pypath \<Rightarrow> os_error + bool" where
  "has_marker fs root =
     (let git_dir = root @ [''.git'']
      in case fs_exists fs git_dir of
           Inl e \<Rightarrow> Inl e
         | Inr ex \<Rightarrow> if ex then fs_is_dir fs git_dir else Inr False)"

text \<open>
  The \<open>for entry in sorted(root.iterdir())\<close> loop; \<open>recurse\<close> is the recursive call
  at the next depth and \<open>found\<close> the list \<open>repos\<close> so far. An \<open>OSError\<close> raised by \<open>entry.is_dir()\<close> leaves the loop for the
  handler, which passes, and the method returns the paths collected so far.
\<close>

fun visit_entries ::
  "(pypath \<Rightarrow> pypath list) \<Rightarrow> filesystem \<Rightarrow> pypath list \<Rightarrow> pypath list \<Rightarrow> pypath list" where
  "visit_entries recurse fs [] found = found"
| "visit_entries recurse fs (entry # rest) found =
     (case fs_is_dir fs entry of
        Inl e \<Rightarrow> found
      | Inr d \<Rightarrow>
          if d \<and> \<not> startswith_dot (path_name entry) then
            (if path_name entry \<in> set skip_names
             then visit_entries recurse fs rest found
             else visit_entries recurse fs rest (found @ recurse entry))
          else visit_entries recurse fs rest found)"

lemma visit_entries_ext:
  "(\<And>e. e \<in> set es \<Longrightarrow> f e = g e) \<Longrightarrow> visit_entries f fs es acc = visit_entries g fs es acc"
proof (induction es arbitrary: acc)
  case Nil
  then show ?case by simp
next
  case (Cons e es)
  from Cons.prems have "f e = g e" and "\<And>x. x \<in> set es \<Longrightarrow> f x = g x" by simp_all
  with Cons.IH show ?case
    by (simp split: sum.splits)
qed

lemma visit_entries_cong [fundef_cong]:
  "(\<And>e. e \<in> set es \<Longrightarrow> f e = g e) \<Longrightarrow> fs = fs' \<Longrightarrow> es = es' \<Longrightarrow> acc = acc' \<Longrightarrow>
     visit_entries f fs es acc = visit_entries g fs' es' acc'"
  using visit_entries_ext [of es f g fs acc] by simp

function find_repos :: "filesystem \<Rightarrow> int \<Rightarrow> pypath \<Rightarrow> int \<Rightarrow> pypath list" where
  "find_repos fs max_depth root depth =
     (if depth > max_depth then []
      else
        (case has_marker fs root of
           Inl e \<Rightarrow> []
         | Inr True \<Rightarrow> [root]
         | Inr False \<Rightarrow>
             (case fs_iterdir fs root of
                Inl e \<Rightarrow> []
              | Inr names \<Rightarrow>
                  visit_entries (\<lambda>entry. find_repos fs max_depth entry (depth + 1)) fs
                    (sort (map (\<lambda>n. root @ [n]) names)) [])))"
  by pat_completeness auto
termination
  by (relation "measure (\<lambda>(fs, max_depth, root, depth). nat (max_depth + 1 - depth))") auto

declare find_repos.simps [simp del]

text \<open>An entry the loop descends into.\<close>

definition eligible :: "filesystem \<Rightarrow> pypath \<Rightarrow> bool" where
  "eligible fs entry =
     (fs_is_dir fs entry = Inr True \<and> \<not> startswith_dot (path_name entry)
      \<and> path_name entry \<notin> set skip_names)"

text \<open>
  What the specification says of a path the locator returns from \<open>root\<close> at \<open>depth\<close>:
  it lies below \<open>root\<close> within the depth limit, it holds the marker directory, no
  component on the way down starts with a dot or is skip-listed, and no directory on the
  way down holds the marker itself.
\<close>

definition located :: "filesystem \<Rightarrow> int \<Rightarrow> pypath \<Rightarrow> int \<Rightarrow> pypath \<Rightarrow> bool" where
  "located fs max_depth root depth p =
     (\<exists>names. p = root @ names
        \<and> depth + int (length names) \<le> max_depth
        \<and> has_marker fs p = Inr True
        \<and> (\<forall>n \<in> set names. \<not> startswith_dot n \<and> n \<notin> set skip_names)
        \<and> (\<forall>k < length names. has_marker fs (root @ take k names) = Inr False))"

section \<open>Scan orchestrator: \<open>GitPulse.scan\<close>\<close>

text \<open>The body of the \<open>for rp in repo_paths\<close> loop after the status is known.\<close>

definition count_repo :: "ScanResult \<Rightarrow> RepoStatus \<Rightarrow> ScanResult" where
  "count_repo result repo_status =
     (let result = result\<lparr>repos := repos result @ [repo_status]\<rparr>
      in if error repo_status \<noteq> [] then result\<lparr>error_count := error_count result + 1\<rparr>
         else if health_score repo_status \<ge> 80
           then result\<lparr>healthy_count := healthy_count result + 1\<rparr>
         else if health_score repo_status \<ge> 60
           then result\<lparr>warning_count := warning_count result + 1\<rparr>
         else result\<lparr>critical_count := critical_count result + 1\<rparr>)"

fun scan_loop ::
  "runtime \<Rightarrow> pypath list \<Rightarrow> ScanResult \<Rightarrow> py_exception + (ScanResult \<times> runtime)" where
  "scan_loop rt [] result = Inr (result, rt)"
| "scan_loop rt (rp # rest) result =
     (case get_repo_status rt rp of
        Inl e \<Rightarrow> Inl e
      | Inr (repo_status, rt') \<Rightarrow> scan_loop rt' rest (count_repo result repo_status))"

definition raise_os :: "os_error \<Rightarrow> py_exception" where
  "raise_os e = (case e of PermissionDenied \<Rightarrow> PermissionError | OtherOSFailure \<Rightarrow> OSError)"

text \<open>
  \<open>now_str\<close> is the formatted local time read at the start and \<open>elapsed_ms\<close> the
  value of \<open>int(elapsed * 1000)\<close> read at the end; both come from the system clock.
\<close>

definition scan ::
  "filesystem \<Rightarrow> int \<Rightarrow> runtime \<Rightarrow> string \<Rightarrow> int \<Rightarrow> string
     \<Rightarrow> py_exception + (ScanResult \<times> runtime)" where
  "scan fs max_depth rt now_str elapsed_ms root_dir_arg =
     (if root_dir_arg = [] then Inl (ValueError ''root_dir cannot be empty'')
      else
        (let root = fs_resolve fs root_dir_arg
         in case fs_exists fs root of
              Inl e \<Rightarrow> Inl (raise_os e)
            | Inr False \<Rightarrow> Inl (FileNotFoundError (''Directory not found: '' @ path_str root))
            | Inr True \<Rightarrow>
               (case fs_is_dir fs root of
                  Inl e \<Rightarrow> Inl (raise_os e)
                | Inr False \<Rightarrow> Inl (ValueError (''Not a directory: '' @ path_str root))
                | Inr True \<Rightarrow>
                   (let result = new_ScanResult (path_str root) now_str;
                        repo_paths = find_repos fs max_depth root 0;
                        result = result\<lparr>total_repos := int (length repo_paths)\<rparr>
                    in case scan_loop rt repo_paths result of
                         Inl e \<Rightarrow> Inl e
                       | Inr (result, rt') \<Rightarrow>
                           Inr (result\<lparr>scan_duration_ms := elapsed_ms,
                                       repos := sort_key (\<lambda>r. (health_score r, name r))
                                                  (repos result)\<rparr>, rt')))))"

text \<open>The four buckets as the specification words them.\<close>

definition is_healthy :: "RepoStatus \<Rightarrow> bool" where
  "is_healthy r = (error r = [] \<and> 80 \<le> health_score r)"

definition is_warning :: "RepoStatus \<Rightarrow> bool" where
  "is_warning r = (error r = [] \<and> 60 \<le> health_score r \<and> health_score r < 80)"

definition is_critical :: "RepoStatus \<Rightarrow> bool" where
  "is_critical r = (error r = [] \<and> health_score r < 60)"

definition is_error :: "RepoStatus \<Rightarrow> bool" where
  "is_error r = (error r \<noteq> [])"

definition count_where :: "(RepoStatus \<Rightarrow> bool) \<Rightarrow> RepoStatus list \<Rightarrow> int" where
  "count_where P rs = int (length (filter P rs))"

text \<open>The invariant of the scan loop: the counters count the records appended so far.\<close>

definition counted :: "ScanResult \<Rightarrow> bool" where
  "counted r =
     (healthy_count r = count_where is_healthy (repos r)
      \<and> warning_count r = count_where is_warning (repos r)
      \<and> critical_count r = count_where is_critical (repos r)
      \<and> error_count r = count_where is_error (repos r))"

section \<open>A concrete directory tree\<close>

text \<open>
  A tree of files and directories. \<open>Locked\<close> is a directory whose listing is refused;
  \<open>Unreachable\<close> is an entry whose status cannot be read, such as a link into a
  directory that may not be searched: \<open>exists\<close>, \<open>is_dir\<close> and \<open>iterdir\<close> raise
  \<open>PermissionError\<close> on it. \<open>fs_of\<close> gives the file system that holds exactly this
  tree at the root.
\<close>

datatype node = File | Locked | Unreachable | Dir "(string \<times> node) list"

fun lookup :: "node \<Rightarrow> pypath \<Rightarrow> node option" where
  "lookup t [] = Some t"
| "lookup (Dir es) (n # p) = (case map_of es n of None \<Rightarrow> None | Some c \<Rightarrow> lookup c p)"
| "lookup t (n # p) = None"

definition fs_of :: "node \<Rightarrow> filesystem" where
  "fs_of t =
     \<lparr> fs_resolve = (\<lambda>s. filter (\<lambda>c. c \<noteq> []) (split_on (CHR ''/'') s)),
       fs_exists = (\<lambda>p. case lookup t p of
                           Some Unreachable \<Rightarrow> Inl PermissionDenied
                         | Some _ \<Rightarrow> Inr True
                         | None \<Rightarrow> Inr False),
       fs_is_dir = (\<lambda>p. case lookup t p of
                           Some (Dir es) \<Rightarrow> Inr True
                         | Some Locked \<Rightarrow> Inr True
                         | Some Unreachable \<Rightarrow> Inl PermissionDenied
                         | _ \<Rightarrow> Inr False),
       fs_iterdir = (\<lambda>p. case lookup t p of
                            Some (Dir es) \<Rightarrow> Inr (map fst es)
                          | Some Locked \<Rightarrow> Inl PermissionDenied
                          | Some Unreachable \<Rightarrow> Inl PermissionDenied
                          | _ \<Rightarrow> Inl OtherOSFailure) \<rparr>"

definition git_marker :: "string \<times> node" where
  "git_marker = (''.git'', Dir [])"

text \<open>
  Under \<open>/work\<close>: \<open>repo\<close> is a repository that holds a nested repository \<open>sub\<close>;
  \<open>group/inner\<close> is a repository at depth 2 and \<open>group/deep/far\<close> one at depth 3;
  \<open>node_modules/pkg\<close> and \<open>.cache\<close> are repositories under names that are skipped;
  \<open>locked\<close> cannot be listed; \<open>notes.txt\<close> is a file. The listing order is not sorted.
\<close>

definition work_tree :: node where
  "work_tree =
     Dir [(''work'',
        Dir [ (''locked'', Locked),
              (''repo'', Dir [git_marker, (''sub'', Dir [git_marker])]),
              (''notes.txt'', File),
              (''node_modules'', Dir [(''pkg'', Dir [git_marker])]),
              (''group'', Dir [ (''inner'', Dir [git_marker]),
                                (''deep'', Dir [(''far'', Dir [git_marker])]) ]),
              (''.cache'', Dir [git_marker]) ])]"

text \<open>
  Under \<open>/w\<close>: the repositories \<open>a\<close> and \<open>c\<close>, and between them in lexical order the
  entry \<open>b\<close> whose status cannot be read.
\<close>

definition cut_tree :: node where
  "cut_tree =
     Dir [(''w'', Dir [ (''a'', Dir [git_marker]),
                        (''b'', Unreachable),
                        (''c'', Dir [git_marker]) ])]"

section \<open>Views of the state used in the proofs\<close>

text \<open>The outcome of the validity check \<open>git rev-parse --git-dir\<close> as \<open>_run_git\<close> returns it.\<close>

definition validity_rc :: "runtime \<Rightarrow> pypath \<Rightarrow> int" where
  "validity_rc rt p = snd (snd (fst (run_git rt p [''rev-parse'', ''--git-dir''])))"

definition validity_stderr :: "runtime \<Rightarrow> pypath \<Rightarrow> string" where
  "validity_stderr rt p = fst (snd (fst (run_git rt p [''rev-parse'', ''--git-dir''])))"

text \<open>The status record alone, and the record of a call known to return.\<close>

definition status_result :: "runtime \<Rightarrow> pypath \<Rightarrow> py_exception + RepoStatus" where
  "status_result rt p = map_sum id fst (get_repo_status rt p)"

definition status_of :: "runtime \<Rightarrow> pypath \<Rightarrow> RepoStatus" where
  "status_of rt p = projr (status_result rt p)"

text \<open>Groups of fields that most steps of the extractor leave alone.\<close>

definition worktree_view :: "RepoStatus \<Rightarrow> int \<times> int \<times> int \<times> int \<times> int \<times> bool \<times> string" where
  "worktree_view s = (staged_count s, modified_count s, untracked_count s, deleted_count s,
                      conflict_count s, is_dirty s, error s)"

definition side_view :: "RepoStatus \<Rightarrow> int \<times> string \<times> int" where
  "side_view s = (stash_count s, last_commit_date s, last_commit_age_days s)"

text \<open>What a run of the extractor reads and never changes: the answers of the
  subprocesses, the clock and the date parser.\<close>

definition outside_view ::
  "runtime \<Rightarrow> (string list \<Rightarrow> proc_result) \<times> int \<times> (string \<Rightarrow> pydatetime option)" where
  "outside_view rt = (subprocess_run rt, utc_now_us rt, fromisoformat rt)"

definition nonneg_counts :: "RepoStatus \<Rightarrow> bool" where
  "nonneg_counts s = (0 \<le> staged_count s \<and> 0 \<le> modified_count s \<and> 0 \<le> untracked_count s
                       \<and> 0 \<le> deleted_count s \<and> 0 \<le> conflict_count s)"

text \<open>
  The commit time at UTC (an unmarked time is taken as UTC), and what it means for \<open>d\<close> to
  be the floor of an elapsed duration of \<open>delta\<close> microseconds in whole days.
\<close>

definition commit_utc_us :: "pydatetime \<Rightarrow> int" where
  "commit_utc_us dt = (case utcoffset_us dt of None \<Rightarrow> wall_us dt | Some off \<Rightarrow> wall_us dt - off)"

definition floor_days :: "int \<Rightarrow> int \<Rightarrow> bool" where
  "floor_days delta d = (d * 86400000000 \<le> delta \<and> delta < (d + 1) * 86400000000)"

text \<open>
  The date text the last-commit query of a repository yields, if any: the part before
  the first \<open>|||\<close> of a non-empty answer that came with exit code 0 and holds a \<open>|||\<close>.
  For a branch it is the whole non-empty answer that came with exit code 0.
\<close>

definition last_commit_read :: "runtime \<Rightarrow> pypath \<Rightarrow> string option" where
  "last_commit_read rt p =
     (let (out, err, rc) = fst (run_git rt p [''log'', ''-1'', ''--format=%aI|||%s''])
      in if rc = 0 \<and> out \<noteq> []
         then (case split_max1 ''|||'' out of [d, m] \<Rightarrow> Some d | _ \<Rightarrow> None)
         else None)"

definition branch_commit_read :: "runtime \<Rightarrow> pypath \<Rightarrow> string \<Rightarrow> string option" where
  "branch_commit_read rt p n =
     (let (out, err, rc) = fst (run_git rt p [''log'', ''-1'', ''--format=%aI'', n])
      in if rc = 0 \<and> out \<noteq> [] then Some out else None)"

text \<open>
  What the specification asks of an age \<open>a\<close> given the date text \<open>d\<close>: the default 0 when
  \<open>d\<close> does not parse, otherwise the floor in whole days of the time elapsed from the
  commit to the clock, which is non-negative exactly when the commit is not later than
  the clock.
\<close>

definition age_of_date :: "runtime \<Rightarrow> string \<Rightarrow> int \<Rightarrow> bool" where
  "age_of_date rt d a =
     (case fromisoformat rt d of
        None \<Rightarrow> a = 0
      | Some dt \<Rightarrow>
          floor_days (utc_now_us rt - commit_utc_us dt) a
          \<and> (0 \<le> a \<longleftrightarrow> commit_utc_us dt \<le> utc_now_us rt)
          \<and> (a < 0 \<longleftrightarrow> utc_now_us rt < commit_utc_us dt))"

section \<open>Concrete repositories\<close>

text \<open>
  Subprocess answers are given by a table from command lines to results; a command that
  is not listed exits with code 1 and no output. \<open>clean_repo_table\<close> is a repository at
  \<open>/work/repo\<close> on branch \<open>main\<close> with one remote, ten commits, nothing to commit, in sync
  with its upstream; the clock reads 2026-01-11T00:00:00Z.
\<close>

definition answers :: "(string list \<times> proc_result) list \<Rightarrow> string list \<Rightarrow> proc_result" where
  "answers tbl cmd = (case map_of tbl cmd of Some r \<Rightarrow> r | None \<Rightarrow> Completed [] [] 1)"

definition nl :: string where
  "nl = [CHR 0x0A]"

definition tab :: string where
  "tab = [CHR 0x09]"

definition git_cmd :: "string list \<Rightarrow> string list" where
  "git_cmd args = [''git'', ''-C'', ''/work/repo''] @ args"

definition repo_dir :: pypath where
  "repo_dir = [''work'', ''repo'']"

text \<open>The two timestamps the examples use, as \<open>datetime.fromisoformat\<close> reads them.\<close>

definition iso_table :: "string \<Rightarrow> pydatetime option" where
  "iso_table t =
     (if t = ''2026-01-10T12:00:00+00:00''
        then Some \<lparr>wall_us = 1768046400000000, utcoffset_us = Some 0\<rparr>
      else if t = ''2026-01-12T09:30:00+02:00''
        then Some \<lparr>wall_us = 1768210200000000, utcoffset_us = Some 7200000000\<rparr>
      else None)"

definition clean_repo_table :: "(string list \<times> proc_result) list" where
  "clean_repo_table =
     [ (git_cmd [''rev-parse'', ''--git-dir''], Completed (''.git'' @ nl) [] 0),
       (git_cmd [''branch'', ''--show-current''], Completed (''main'' @ nl) [] 0),
       (git_cmd [''status'', ''--porcelain=v1''], Completed [] [] 0),
       (git_cmd [''remote'', ''-v''],
          Completed (''origin'' @ tab @ ''https://example.org/r.git (fetch)'' @ nl) [] 0),
       (git_cmd [''rev-list'', ''--left-right'', ''--count'', ''main'' @ upstream_range],
          Completed (''0'' @ tab @ ''0'' @ nl) [] 0),
       (git_cmd [''log'', ''-1'', ''--format=%aI|||%s''],
          Completed (''2026-01-10T12:00:00+00:00|||Initial commit'' @ nl) [] 0),
       (git_cmd [''rev-list'', ''--count'', ''HEAD''], Completed (''10'' @ nl) [] 0),
       (git_cmd [''branch'', ''--list''], Completed (''* main'' @ nl) [] 0),
       (git_cmd [''tag'', ''--list''], Completed [] [] 0),
       (git_cmd [''stash'', ''list''], Completed [] [] 0) ]"

definition runtime_of :: "(string list \<times> proc_result) list \<Rightarrow> runtime" where
  "runtime_of tbl =
     \<lparr> subprocess_run = answers tbl, issued = [], utc_now_us = 1768089600000000,
       fromisoformat = iso_table \<rparr>"

definition clean_status :: RepoStatus where
  "clean_status =
     \<lparr> name = ''repo'', path = ''/work/repo'', current_branch = ''main'', staged_count = 0,
       modified_count = 0, untracked_count = 0, deleted_count = 0, conflict_count = 0,
       stash_count = 0, ahead = 0, behind = 0, has_remote = True,
       remote_url = ''https://example.org/r.git'',
       last_commit_date = ''2026-01-10T12:00:00+00:00'', last_commit_age_days = 0,
       last_commit_message = ''Initial commit'', total_commits = 10, branch_count = 1,
       tag_count = 0, is_dirty = False, is_detached = False, health_score = 100,
       health_grade = ''A'', issues = [], error = [] \<rparr>"

definition rt_clean :: runtime where
  "rt_clean = runtime_of clean_repo_table"

text \<open>The validity check fails: the directory is not a repository.\<close>

definition rt_not_a_repo :: runtime where
  "rt_not_a_repo =
     runtime_of [ (git_cmd [''rev-parse'', ''--git-dir''],
                   Completed [] (''fatal: not a git repository'' @ nl) 128) ]"

text \<open>One tracked file modified in the working tree and not staged: git prints a blank,
  \<open>M\<close>, a blank and the path.\<close>

definition rt_unstaged :: runtime where
  "rt_unstaged =
     runtime_of ((git_cmd [''status'', ''--porcelain=v1''],
                  Completed ('' M a.txt'' @ nl) [] 0) # clean_repo_table)"

text \<open>The ahead/behind query answers with an integer and a field that is none.\<close>

definition rt_bad_count :: runtime where
  "rt_bad_count =
     runtime_of ((git_cmd [''rev-list'', ''--left-right'', ''--count'', ''main'' @ upstream_range],
                  Completed (''3 x'' @ nl) [] 0) # clean_repo_table)"

text \<open>The upstream has three commits the branch lacks.\<close>

definition rt_behind :: runtime where
  "rt_behind =
     runtime_of ((git_cmd [''rev-list'', ''--left-right'', ''--count'', ''main'' @ upstream_range],
                  Completed (''3'' @ tab @ ''0'' @ nl) [] 0) # clean_repo_table)"

text \<open>The last commit carries an author date later than the clock.\<close>

definition rt_future :: runtime where
  "rt_future =
     runtime_of ((git_cmd [''log'', ''-1'', ''--format=%aI|||%s''],
                  Completed (''2026-01-12T09:30:00+02:00|||Planned work'' @ nl) [] 0)
                 # (git_cmd [''log'', ''-1'', ''--format=%aI'', ''main''],
                  Completed (''2026-01-12T09:30:00+02:00'' @ nl) [] 0)
                 # clean_repo_table)"

text \<open>
  The result of scanning \<open>/work\<close> to depth 3 when git answers for \<open>/work/repo\<close> only
  (\<open>clean_repo_table\<close>): the two other roots fail the validity check.
\<close>

definition work_scan :: ScanResult where
  "work_scan =
     \<lparr> root_dir = ''/work'', scan_time = ''2026-01-11 01:00:00'', total_repos = 3,
       healthy_count = 1, warning_count = 0, critical_count = 0, error_count = 2,
       repos =
         [ (new_RepoStatus ''far'' ''/work/group/deep/far'')
             \<lparr>error := ''Not a valid git repo: '', health_score := 0, health_grade := ''F''\<rparr>,
           (new_RepoStatus ''inner'' ''/work/group/inner'')
             \<lparr>error := ''Not a valid git repo: '', health_score := 0, health_grade := ''F''\<rparr>,
           clean_status ],
       scan_duration_ms = 42 \<rparr>"

section \<open>Properties of the health scorer\<close>

lemma step_norm:
  "(case (if c then ((sc::int) - p, iss @ [t]) else (sc, iss)) of (a, b) \<Rightarrow> K a b) =
     K (sc - (if c then p else 0)) (iss @ (if c then [t] else []))"
  by (cases c; simp)

lemma step_norm2:
  "(case (if c then ((sc::int) - p, iss @ [t]) else if d then (sc - q, iss @ [u]) else (sc, iss))
      of (a, b) \<Rightarrow> K a b) =
     K (sc - (if c then p else 0) - (if \<not> c \<and> d then q else 0))
       (iss @ (if c then [t] else []) @ (if \<not> c \<and> d then [u] else []))"
  by (cases c; cases d; simp)

lemma ahead_cond: "((a::int) > 0 \<and> a > 5) = (a > 5)"
  by auto

lemma sum_triggered_Cons:
  "sum_list (map (\<lambda>r. fst (snd r)) (filter fst ((c, p, t) # rs))) =
     (if c then p else 0) + sum_list (map (\<lambda>r. fst (snd r)) (filter fst rs))"
  by simp

lemma issues_triggered_Cons:
  "map (\<lambda>r. snd (snd r)) (filter fst ((c, p, t) # rs)) =
     (if c then [t] else []) @ map (\<lambda>r. snd (snd r)) (filter fst rs)"
  by simp

lemma calculate_health_normal:
  "calculate_health s =
     (max 0 (100 - penalty_sum s), grade_of (max 0 (100 - penalty_sum s)), triggered_issues s)"
  unfolding calculate_health_def penalty_sum_def triggered_issues_def triggered_def
    penalty_table_def grade_of_def Let_def
  unfolding ahead_cond step_norm step_norm2 sum_triggered_Cons issues_triggered_Cons
  apply (simp only: filter.simps list.map sum_list.Nil append_Nil append_Nil2 append_assoc)
  apply (simp split del: if_split cong: if_cong add: algebra_simps)
  done

lemma sum_filter_nonneg:
  "(\<And>r. r \<in> set rs \<Longrightarrow> 0 \<le> fst (snd r)) \<Longrightarrow>
     (0::int) \<le> sum_list (map (\<lambda>r. fst (snd r)) (filter fst rs))"
  by (induction rs) auto

lemma penalty_sum_nonneg: "0 \<le> penalty_sum s"
  unfolding penalty_sum_def triggered_def
  by (rule sum_filter_nonneg) (auto simp: penalty_table_def)

lemma grade_of_cases:
  "(grade_of sc = ''A'') = (90 \<le> sc)"
  "(grade_of sc = ''B'') = (80 \<le> sc \<and> sc < 90)"
  "(grade_of sc = ''C'') = (70 \<le> sc \<and> sc < 80)"
  "(grade_of sc = ''D'') = (60 \<le> sc \<and> sc < 70)"
  "(grade_of sc = ''F'') = (sc < 60)"
  by (auto simp: grade_of_def)

lemma penalty_sum_all:
  assumes "\<not> has_remote s" "staged_count s > 0 \<or> modified_count s > 0"
    "untracked_count s > 0" "deleted_count s > 0" "behind s > 0" "ahead s > 5"
    "last_commit_age_days s > 90" "is_detached s" "conflict_count s > 0"
    "total_commits s = 0" "stash_count s > 0"
  shows "penalty_sum s = 128"
  using assms by (simp add: penalty_sum_def triggered_def penalty_table_def)

text \<open>
  Claim C1. For every RepoStatus record the scorer returns
  score = max(0, 100 - sum of the penalties of the triggered rows of the table), the issue
  texts of exactly the triggered rows in table order (the stale row only when the
  very-stale row does not fire), and the grade of that score; the score lies in [0,100],
  the grade is A iff score >= 90, B iff 80 <= score < 90, C iff 70 <= score < 80,
  D iff 60 <= score < 70, F otherwise; and when every penalty triggers at once the score
  is clamped at 0 with grade F.
\<close>

theorem C1_health_score:
  fixes s :: RepoStatus
  defines "score \<equiv> fst (calculate_health s)"
      and "grade \<equiv> fst (snd (calculate_health s))"
  shows "calculate_health s =
           (max 0 (100 - penalty_sum s), grade_of (max 0 (100 - penalty_sum s)),
            triggered_issues s)
       \<and> 0 \<le> score \<and> score \<le> 100
       \<and> (grade = ''A'' \<longleftrightarrow> 90 \<le> score)
       \<and> (grade = ''B'' \<longleftrightarrow> 80 \<le> score \<and> score < 90)
       \<and> (grade = ''C'' \<longleftrightarrow> 70 \<le> score \<and> score < 80)
       \<and> (grade = ''D'' \<longleftrightarrow> 60 \<le> score \<and> score < 70)
       \<and> (grade = ''F'' \<longleftrightarrow> score < 60)
       \<and> (\<not> has_remote s \<and> (staged_count s > 0 \<or> modified_count s > 0)
            \<and> untracked_count s > 0 \<and> deleted_count s > 0 \<and> behind s > 0 \<and> ahead s > 5
            \<and> last_commit_age_days s > 90 \<and> is_detached s \<and> conflict_count s > 0
            \<and> total_commits s = 0 \<and> stash_count s > 0
            \<longrightarrow> score = 0 \<and> grade = ''F'')"
proof -
  have sc: "score = max 0 (100 - penalty_sum s)"
    and gr: "grade = grade_of score"
    by (simp_all add: score_def grade_def calculate_health_normal)
  have bounds: "0 \<le> score \<and> score \<le> 100"
    using penalty_sum_nonneg [of s] by (simp add: sc)
  have worst: "score = 0 \<and> grade = ''F''"
    if "\<not> has_remote s" "staged_count s > 0 \<or> modified_count s > 0"
      "untracked_count s > 0" "deleted_count s > 0" "behind s > 0" "ahead s > 5"
      "last_commit_age_days s > 90" "is_detached s" "conflict_count s > 0"
      "total_commits s = 0" "stash_count s > 0"
  proof -
    have "score = 0" using penalty_sum_all [OF that] by (simp add: sc)
    then show ?thesis by (simp add: gr grade_of_def)
  qed
  show ?thesis
    using bounds worst calculate_health_normal [of s]
    by (simp add: gr grade_of_cases)
qed

text \<open>A record on which every penalty fires at once.\<close>

theorem C1_health_score_witness:
  "(\<not> has_remote worst_status
      \<and> (staged_count worst_status > 0 \<or> modified_count worst_status > 0)
      \<and> untracked_count worst_status > 0 \<and> deleted_count worst_status > 0
      \<and> behind worst_status > 0 \<and> ahead worst_status > 5
      \<and> last_commit_age_days worst_status > 90 \<and> is_detached worst_status
      \<and> conflict_count worst_status > 0 \<and> total_commits worst_status = 0
      \<and> stash_count worst_status > 0)
   \<and> fst (calculate_health worst_status) = 0
   \<and> fst (snd (calculate_health worst_status)) = ''F''"
proof -
  have h: "\<not> has_remote worst_status
      \<and> (staged_count worst_status > 0 \<or> modified_count worst_status > 0)
      \<and> untracked_count worst_status > 0 \<and> deleted_count worst_status > 0
      \<and> behind worst_status > 0 \<and> ahead worst_status > 5
      \<and> last_commit_age_days worst_status > 90 \<and> is_detached worst_status
      \<and> conflict_count worst_status > 0 \<and> total_commits worst_status = 0
      \<and> stash_count worst_status > 0"
    by (simp add: worst_status_def new_RepoStatus_def)
  from C1_health_score [of worst_status] h
  have "fst (calculate_health worst_status) = 0
      \<and> fst (snd (calculate_health worst_status)) = ''F''"
    by blast
  with h show ?thesis by blast
qed

section \<open>Properties of the status extractor\<close>

subsection \<open>The process runner\<close>

lemma run_git_snd: "snd (run_git rt p args) = rt\<lparr>issued := issued rt @ [args]\<rparr>"
  by (simp add: run_git_def Let_def split: proc_result.splits)

lemma run_git_clock [simp]: "outside_view (snd (run_git rt p args)) = outside_view rt"
  by (simp add: run_git_snd outside_view_def)

subsection \<open>The working-tree parser\<close>

lemma classify_line_total:
  "classify_line s line =
     Inr (case line of
            x # y # _ \<Rightarrow>
              if x = CHR ''?'' \<and> y = CHR ''?'' then s\<lparr>untracked_count := untracked_count s + 1\<rparr>
              else if x = CHR ''U'' \<or> y = CHR ''U'' \<or> (x = CHR ''A'' \<and> y = CHR ''A'')
                      \<or> (x = CHR ''D'' \<and> y = CHR ''D'')
              then s\<lparr>conflict_count := conflict_count s + 1\<rparr>
              else s\<lparr>staged_count := staged_count s
                         + (if x \<in> {CHR ''A'', CHR ''M'', CHR ''R'', CHR ''C''} then 1 else 0),
                      modified_count := modified_count s + (if y = CHR ''M'' then 1 else 0),
                      deleted_count := deleted_count s + (if x = CHR ''D'' then 1 else 0)
                                         + (if y = CHR ''D'' then 1 else 0)\<rparr>
          | _ \<Rightarrow> s)"
proof (cases line)
  case Nil
  then show ?thesis by (simp add: classify_line_def)
next
  case (Cons x r)
  show ?thesis
  proof (cases r)
    case Nil
    with Cons show ?thesis by (simp add: classify_line_def)
  next
    case (Cons y r')
    with \<open>line = x # r\<close> show ?thesis
      by (simp add: classify_line_def getitem_def Let_def)
  qed
qed

lemma classify_line_keeps:
  assumes "classify_line s l = Inr s'"
  shows "error s' = error s" and "is_dirty s' = is_dirty s" and "side_view s' = side_view s"
    and "nonneg_counts s \<Longrightarrow> nonneg_counts s'"
proof -
  have eq: "s' = (case l of
            x # y # _ \<Rightarrow>
              if x = CHR ''?'' \<and> y = CHR ''?'' then s\<lparr>untracked_count := untracked_count s + 1\<rparr>
              else if x = CHR ''U'' \<or> y = CHR ''U'' \<or> (x = CHR ''A'' \<and> y = CHR ''A'')
                      \<or> (x = CHR ''D'' \<and> y = CHR ''D'')
              then s\<lparr>conflict_count := conflict_count s + 1\<rparr>
              else s\<lparr>staged_count := staged_count s
                         + (if x \<in> {CHR ''A'', CHR ''M'', CHR ''R'', CHR ''C''} then 1 else 0),
                      modified_count := modified_count s + (if y = CHR ''M'' then 1 else 0),
                      deleted_count := deleted_count s + (if x = CHR ''D'' then 1 else 0)
                                         + (if y = CHR ''D'' then 1 else 0)\<rparr>
          | _ \<Rightarrow> s)"
    using assms classify_line_total [of s l] by simp
  show "error s' = error s"
    unfolding eq by (simp split: list.splits)
  show "is_dirty s' = is_dirty s"
    unfolding eq by (simp split: list.splits)
  show "side_view s' = side_view s"
    unfolding eq side_view_def by (simp split: list.splits)
  show "nonneg_counts s'" if "nonneg_counts s"
    using that unfolding eq nonneg_counts_def by (simp split: list.splits)
qed

lemma classify_lines_total: "\<exists>s'. classify_lines s ls = Inr s'"
  by (induction ls arbitrary: s) (simp_all add: classify_line_total)

lemma classify_lines_keeps:
  "classify_lines s ls = Inr s' \<Longrightarrow>
     error s' = error s \<and> is_dirty s' = is_dirty s \<and> side_view s' = side_view s
     \<and> (nonneg_counts s \<longrightarrow> nonneg_counts s')"
proof (induction ls arbitrary: s)
  case Nil
  then show ?case by simp
next
  case (Cons l ls)
  obtain s1 where s1: "classify_line s l = Inr s1"
    using classify_line_total by blast
  with Cons.prems have "classify_lines s1 ls = Inr s'" by simp
  from Cons.IH [OF this] classify_line_keeps [OF s1] show ?case by simp
qed

lemma read_porcelain_total:
  "\<exists>s'. read_porcelain rt p s = Inr (s', snd (run_git rt p [''status'', ''--porcelain=v1'']))
        \<and> error s' = error s \<and> is_dirty s' = is_dirty s \<and> side_view s' = side_view s
        \<and> (nonneg_counts s \<longrightarrow> nonneg_counts s')"
proof (cases "snd (snd (fst (run_git rt p [''status'', ''--porcelain=v1'']))) = 0
              \<and> fst (fst (run_git rt p [''status'', ''--porcelain=v1''])) \<noteq> []")
  case True
  obtain s' where s': "classify_lines s
      (split_lines (fst (fst (run_git rt p [''status'', ''--porcelain=v1''])))) = Inr s'"
    using classify_lines_total by blast
  with True classify_lines_keeps [OF s'] show ?thesis
    by (simp add: read_porcelain_def split_beta)
next
  case False
  then show ?thesis
    by (auto simp add: read_porcelain_def split_beta)
qed

subsection \<open>What each step leaves alone\<close>

lemma read_current_branch_frame:
  "worktree_view (fst (read_current_branch rt p s)) = worktree_view s"
  "side_view (fst (read_current_branch rt p s)) = side_view s"
  "outside_view (snd (read_current_branch rt p s)) = outside_view rt"
  by (simp_all add: read_current_branch_def worktree_view_def side_view_def split_beta Let_def)

lemma set_is_dirty_frame:
  "worktree_view (set_is_dirty s) =
     (staged_count s, modified_count s, untracked_count s, deleted_count s, conflict_count s,
      (staged_count s > 0 \<or> modified_count s > 0 \<or> untracked_count s > 0
        \<or> deleted_count s > 0 \<or> conflict_count s > 0), error s)"
  "side_view (set_is_dirty s) = side_view s"
  by (simp_all add: set_is_dirty_def worktree_view_def side_view_def)

lemma read_remote_frame:
  "worktree_view (fst (read_remote rt p s)) = worktree_view s"
  "side_view (fst (read_remote rt p s)) = side_view s"
  "outside_view (snd (read_remote rt p s)) = outside_view rt"
  by (simp_all add: read_remote_def worktree_view_def side_view_def Let_def split_beta
      split: list.splits)

lemma read_ahead_behind_frame:
  "worktree_view (fst (read_ahead_behind rt p s)) = worktree_view s"
  "side_view (fst (read_ahead_behind rt p s)) = side_view s"
  "outside_view (snd (read_ahead_behind rt p s)) = outside_view rt"
  by (simp_all add: read_ahead_behind_def worktree_view_def side_view_def Let_def split_beta
      split: list.splits option.splits)

lemma commit_age_days_clock:
  "outside_view rt' = outside_view rt \<Longrightarrow> commit_age_days rt' t = commit_age_days rt t"
  by (auto simp: commit_age_days_def outside_view_def Let_def split: option.splits)

lemma read_last_commit_frame:
  "worktree_view (fst (read_last_commit rt p s)) = worktree_view s"
  "stash_count (fst (read_last_commit rt p s)) = stash_count s"
  "outside_view (snd (read_last_commit rt p s)) = outside_view rt"
  by (simp_all add: read_last_commit_def worktree_view_def Let_def split_beta
      split: list.splits option.splits)

lemma split_max1_shape:
  "split_max1 sep s = [s] \<or> (\<exists>a b. split_max1 sep s = [a, b])"
  by (simp add: split_max1_def split: option.splits)

lemma run_git_fst_outside:
  "outside_view rt' = outside_view rt \<Longrightarrow> fst (run_git rt' p args) = fst (run_git rt p args)"
  by (simp add: run_git_def outside_view_def Let_def split: proc_result.splits)

lemma last_commit_read_outside:
  "outside_view rt' = outside_view rt \<Longrightarrow> last_commit_read rt' p = last_commit_read rt p"
proof -
  assume "outside_view rt' = outside_view rt"
  then have "fst (run_git rt' p [''log'', ''-1'', ''--format=%aI|||%s''])
      = fst (run_git rt p [''log'', ''-1'', ''--format=%aI|||%s''])"
    by (rule run_git_fst_outside)
  then show ?thesis
    by (simp add: last_commit_read_def)
qed

lemma read_last_commit_exact:
  "case last_commit_read rt p of
     None \<Rightarrow>
       last_commit_date (fst (read_last_commit rt p s)) = last_commit_date s
       \<and> last_commit_age_days (fst (read_last_commit rt p s)) = last_commit_age_days s
   | Some d \<Rightarrow>
       last_commit_date (fst (read_last_commit rt p s)) = d
       \<and> last_commit_age_days (fst (read_last_commit rt p s))
           = (case commit_age_days rt d of None \<Rightarrow> last_commit_age_days s | Some a \<Rightarrow> a)"
proof -
  obtain out err rc where
    g: "fst (run_git rt p [''log'', ''-1'', ''--format=%aI|||%s'']) = (out, err, rc)"
    by (cases "fst (run_git rt p [''log'', ''-1'', ''--format=%aI|||%s''])") auto
  have c: "commit_age_days (snd (run_git rt p [''log'', ''-1'', ''--format=%aI|||%s''])) t
          = commit_age_days rt t" for t
    by (rule commit_age_days_clock) simp
  show ?thesis
  proof (cases "rc = 0 \<and> out \<noteq> []")
    case False
    then have "last_commit_read rt p = None" "fst (read_last_commit rt p s) = s"
      using g by (auto simp add: last_commit_read_def read_last_commit_def split_beta)
    then show ?thesis by simp
  next
    case True
    from split_max1_shape [of "''|||''" out] show ?thesis
    proof
      assume one: "split_max1 ''|||'' out = [out]"
      have "last_commit_read rt p = None" "fst (read_last_commit rt p s) = s"
        using g True one by (simp_all add: last_commit_read_def read_last_commit_def split_beta)
      then show ?thesis by simp
    next
      assume "\<exists>a b. split_max1 ''|||'' out = [a, b]"
      then obtain d m where dm: "split_max1 ''|||'' out = [d, m]" by blast
      have r: "last_commit_read rt p = Some d"
        using g True dm by (simp add: last_commit_read_def)
      have "fst (read_last_commit rt p s) =
              (case commit_age_days rt d of
                 None \<Rightarrow> s\<lparr>last_commit_date := d, last_commit_message := take 120 m\<rparr>
               | Some a \<Rightarrow> s\<lparr>last_commit_date := d, last_commit_message := take 120 m,
                              last_commit_age_days := a\<rparr>)"
        using g True dm c by (simp add: read_last_commit_def split_beta Let_def split: option.splits)
      then show ?thesis
        unfolding r by (simp split: option.splits)
    qed
  qed
qed

lemma read_total_commits_frame:
  "worktree_view (fst (read_total_commits rt p s)) = worktree_view s"
  "side_view (fst (read_total_commits rt p s)) = side_view s"
  "outside_view (snd (read_total_commits rt p s)) = outside_view rt"
  by (simp_all add: read_total_commits_def worktree_view_def side_view_def Let_def split_beta
      split: option.splits)

lemma read_branch_count_frame:
  "worktree_view (fst (read_branch_count rt p s)) = worktree_view s"
  "side_view (fst (read_branch_count rt p s)) = side_view s"
  "outside_view (snd (read_branch_count rt p s)) = outside_view rt"
  by (simp_all add: read_branch_count_def worktree_view_def side_view_def Let_def split_beta)

lemma read_tag_count_frame:
  "worktree_view (fst (read_tag_count rt p s)) = worktree_view s"
  "side_view (fst (read_tag_count rt p s)) = side_view s"
  "outside_view (snd (read_tag_count rt p s)) = outside_view rt"
  by (simp_all add: read_tag_count_def worktree_view_def side_view_def Let_def split_beta)

lemma read_stash_count_frame:
  "worktree_view (fst (read_stash_count rt p s)) = worktree_view s"
  "last_commit_date (fst (read_stash_count rt p s)) = last_commit_date s"
  "last_commit_age_days (fst (read_stash_count rt p s)) = last_commit_age_days s"
  "0 \<le> stash_count s \<Longrightarrow> 0 \<le> stash_count (fst (read_stash_count rt p s))"
  by (simp_all add: read_stash_count_def worktree_view_def count_nonblank_def Let_def split_beta)

lemma set_health_fields:
  "staged_count (set_health s) = staged_count s"
  "modified_count (set_health s) = modified_count s"
  "untracked_count (set_health s) = untracked_count s"
  "deleted_count (set_health s) = deleted_count s"
  "conflict_count (set_health s) = conflict_count s"
  "stash_count (set_health s) = stash_count s"
  "ahead (set_health s) = ahead s"
  "behind (set_health s) = behind s"
  "has_remote (set_health s) = has_remote s"
  "last_commit_age_days (set_health s) = last_commit_age_days s"
  "last_commit_date (set_health s) = last_commit_date s"
  "total_commits (set_health s) = total_commits s"
  "is_dirty (set_health s) = is_dirty s"
  "is_detached (set_health s) = is_detached s"
  "error (set_health s) = error s"
  "health_score (set_health s) = fst (calculate_health s)"
  "health_grade (set_health s) = fst (snd (calculate_health s))"
  "issues (set_health s) = snd (snd (calculate_health s))"
  by (simp_all add: set_health_def split_beta)

subsection \<open>The ahead/behind step\<close>

text \<open>
  No query without a remote or on a detached head; the left field goes to \<open>behind\<close> and
  the right one to \<open>ahead\<close>; a first field that is no integer leaves both alone; a second
  field that is no integer leaves \<open>behind\<close> set.
\<close>

lemma read_ahead_behind_skipped:
  "\<not> (has_remote s \<and> \<not> is_detached s) \<Longrightarrow> read_ahead_behind rt p s = (s, rt)"
  by (auto simp add: read_ahead_behind_def)

lemma read_ahead_behind_parsed:
  assumes "has_remote s" "\<not> is_detached s"
    and "fst (run_git rt p [''rev-list'', ''--left-right'', ''--count'',
                            current_branch s @ upstream_range]) = (out, err, 0)"
    and "out \<noteq> []" "split_ws out = [l, r]" "py_int l = Some b" "py_int r = Some a"
  shows "fst (read_ahead_behind rt p s) = s\<lparr>behind := b, ahead := a\<rparr>"
  using assms by (simp add: read_ahead_behind_def split_beta Let_def)

lemma read_ahead_behind_first_fails:
  assumes "has_remote s" "\<not> is_detached s"
    and "fst (run_git rt p [''rev-list'', ''--left-right'', ''--count'',
                            current_branch s @ upstream_range]) = (out, err, 0)"
    and "out \<noteq> []" "split_ws out = [l, r]" "py_int l = None"
  shows "fst (read_ahead_behind rt p s) = s"
  using assms by (simp add: read_ahead_behind_def split_beta Let_def)

lemma read_ahead_behind_second_fails:
  assumes "has_remote s" "\<not> is_detached s"
    and "fst (run_git rt p [''rev-list'', ''--left-right'', ''--count'',
                            current_branch s @ upstream_range]) = (out, err, 0)"
    and "out \<noteq> []" "split_ws out = [l, r]" "py_int l = Some b" "py_int r = None"
  shows "fst (read_ahead_behind rt p s) = s\<lparr>behind := b\<rparr>"
  using assms by (simp add: read_ahead_behind_def split_beta Let_def)

subsection \<open>The two outcomes of the method\<close>

lemma get_repo_status_invalid:
  assumes "validity_rc rt p \<noteq> 0"
  shows "get_repo_status rt p =
     Inr ((new_RepoStatus (path_name p) (path_str p))
            \<lparr>error := ''Not a valid git repo: '' @ validity_stderr rt p,
             health_score := 0, health_grade := ''F''\<rparr>,
          rt\<lparr>issued := issued rt @ [[''rev-parse'', ''--git-dir'']]\<rparr>)"
  using assms run_git_snd [of rt p "[''rev-parse'', ''--git-dir'']"]
  by (simp add: get_repo_status_def validity_rc_def validity_stderr_def split_beta Let_def)

lemma get_repo_status_valid:
  assumes "validity_rc rt p = 0"
  shows "\<exists>s rt'. get_repo_status rt p = Inr (set_health s, rt')
           \<and> nonneg_counts s \<and> 0 \<le> stash_count s \<and> error s = []
           \<and> is_dirty s = (staged_count s > 0 \<or> modified_count s > 0 \<or> untracked_count s > 0
                              \<or> deleted_count s > 0 \<or> conflict_count s > 0)
           \<and> (case last_commit_read rt p of
                 None \<Rightarrow> last_commit_date s = [] \<and> last_commit_age_days s = 0
               | Some d \<Rightarrow>
                   last_commit_date s = d
                   \<and> last_commit_age_days s
                       = (case commit_age_days rt d of None \<Rightarrow> 0 | Some a \<Rightarrow> a))"
proof -
  define rt1 where "rt1 = snd (run_git rt p [''rev-parse'', ''--git-dir''])"
  define s0 where "s0 = new_RepoStatus (path_name p) (path_str p)"
  define s1 where "s1 = fst (read_current_branch rt1 p s0)"
  define rt2 where "rt2 = snd (read_current_branch rt1 p s0)"
  obtain s2 where s2: "read_porcelain rt2 p s1 =
        Inr (s2, snd (run_git rt2 p [''status'', ''--porcelain=v1'']))"
      "error s2 = error s1" "side_view s2 = side_view s1"
      "nonneg_counts s1 \<longrightarrow> nonneg_counts s2"
    using read_porcelain_total by blast
  have v0: "worktree_view s0 = (0, 0, 0, 0, 0, False, [])" "side_view s0 = (0, [], 0)"
    by (simp_all add: s0_def new_RepoStatus_def worktree_view_def side_view_def)
  have v1: "worktree_view s1 = (0, 0, 0, 0, 0, False, [])" "side_view s1 = (0, [], 0)"
    using v0 by (simp_all add: s1_def read_current_branch_frame)
  have e2: "error s2 = []" and n2: "nonneg_counts s2" and d2: "side_view s2 = (0, [], 0)"
    using s2 v1 by (simp_all add: worktree_view_def nonneg_counts_def)
  define rt3 where "rt3 = snd (run_git rt2 p [''status'', ''--porcelain=v1''])"
  define s3 where "s3 = set_is_dirty s2"
  define r4 where "r4 = read_remote rt3 p s3"
  define r5 where "r5 = read_ahead_behind (snd r4) p (fst r4)"
  define r6 where "r6 = read_last_commit (snd r5) p (fst r5)"
  define r7 where "r7 = read_total_commits (snd r6) p (fst r6)"
  define r8 where "r8 = read_branch_count (snd r7) p (fst r7)"
  define r9 where "r9 = read_tag_count (snd r8) p (fst r8)"
  define r10 where "r10 = read_stash_count (snd r9) p (fst r9)"
  have res: "get_repo_status rt p = Inr (set_health (fst r10), snd r10)"
    using assms s2(1)
    by (simp add: get_repo_status_def validity_rc_def split_beta Let_def
        rt1_def [symmetric] s0_def [symmetric] s1_def [symmetric] rt2_def [symmetric]
        rt3_def [symmetric] s3_def [symmetric] r4_def [symmetric] r5_def [symmetric]
        r6_def [symmetric] r7_def [symmetric] r8_def [symmetric] r9_def [symmetric]
        r10_def [symmetric])
  have view: "worktree_view (fst r10) = worktree_view s3"
    by (simp add: r10_def r9_def r8_def r7_def r6_def r5_def r4_def read_remote_frame
        read_ahead_behind_frame read_last_commit_frame read_total_commits_frame
        read_branch_count_frame read_tag_count_frame read_stash_count_frame)
  have v3: "worktree_view s3 =
     (staged_count s2, modified_count s2, untracked_count s2, deleted_count s2, conflict_count s2,
      (staged_count s2 > 0 \<or> modified_count s2 > 0 \<or> untracked_count s2 > 0
        \<or> deleted_count s2 > 0 \<or> conflict_count s2 > 0), error s2)"
    by (simp add: s3_def set_is_dirty_frame)
  have tree: "nonneg_counts (fst r10) \<and> error (fst r10) = []
      \<and> is_dirty (fst r10) = (staged_count (fst r10) > 0 \<or> modified_count (fst r10) > 0
            \<or> untracked_count (fst r10) > 0 \<or> deleted_count (fst r10) > 0
            \<or> conflict_count (fst r10) > 0)"
    using view v3 n2 e2 by (simp add: worktree_view_def nonneg_counts_def)
  have d5: "side_view (fst r5) = (0, [], 0)"
    using d2 by (simp add: r5_def r4_def s3_def read_remote_frame read_ahead_behind_frame
        set_is_dirty_frame)
  have stash9: "stash_count (fst r9) = 0"
  proof -
    have "stash_count (fst r6) = 0"
      using d5 by (simp add: r6_def read_last_commit_frame side_view_def)
    moreover have "side_view (fst r9) = side_view (fst r6)"
      by (simp add: r9_def r8_def r7_def read_total_commits_frame read_branch_count_frame
          read_tag_count_frame)
    ultimately show ?thesis by (simp add: side_view_def)
  qed
  have stash: "0 \<le> stash_count (fst r10)"
    unfolding r10_def by (rule read_stash_count_frame) (simp add: stash9)
  have out5: "outside_view (snd r5) = outside_view rt"
    by (simp add: r5_def r4_def rt3_def rt2_def rt1_def read_remote_frame
        read_ahead_behind_frame read_current_branch_frame)
  have age6: "case last_commit_read rt p of
                 None \<Rightarrow> last_commit_date (fst r6) = [] \<and> last_commit_age_days (fst r6) = 0
               | Some d \<Rightarrow>
                   last_commit_date (fst r6) = d
                   \<and> last_commit_age_days (fst r6)
                       = (case commit_age_days rt d of None \<Rightarrow> 0 | Some a \<Rightarrow> a)"
  proof -
    have z: "last_commit_date (fst r5) = []" "last_commit_age_days (fst r5) = 0"
      using d5 by (simp_all add: side_view_def)
    have lr: "last_commit_read (snd r5) p = last_commit_read rt p"
      using out5 by (rule last_commit_read_outside)
    have ca: "commit_age_days (snd r5) t = commit_age_days rt t" for t
      using out5 by (rule commit_age_days_clock)
    from read_last_commit_exact [of "snd r5" p "fst r5"] show ?thesis
      unfolding lr ca z r6_def [symmetric] .
  qed
  have "side_view (fst r9) = side_view (fst r6)"
    by (simp add: r9_def r8_def r7_def read_total_commits_frame read_branch_count_frame
        read_tag_count_frame)
  then have same: "last_commit_date (fst r10) = last_commit_date (fst r6)"
      "last_commit_age_days (fst r10) = last_commit_age_days (fst r6)"
    by (simp_all add: r10_def read_stash_count_frame side_view_def)
  have age: "case last_commit_read rt p of
                 None \<Rightarrow> last_commit_date (fst r10) = [] \<and> last_commit_age_days (fst r10) = 0
               | Some d \<Rightarrow>
                   last_commit_date (fst r10) = d
                   \<and> last_commit_age_days (fst r10)
                       = (case commit_age_days rt d of None \<Rightarrow> 0 | Some a \<Rightarrow> a)"
    using age6 unfolding same .
  from res tree stash age show ?thesis by blast
qed

subsection \<open>Evaluation on the concrete repositories\<close>

lemma eval_clean: "status_result rt_clean repo_dir = Inr clean_status"
  by code_simp

lemma eval_unstaged:
  "status_result rt_unstaged repo_dir =
     Inr (clean_status\<lparr>staged_count := 1, is_dirty := True, health_score := 90,
                       issues := [''1 uncommitted change(s)'']\<rparr>)"
  by code_simp

lemma eval_bad_count:
  "status_result rt_bad_count repo_dir =
     Inr (clean_status\<lparr>behind := 3, health_score := 90,
                       issues := [''3 commit(s) behind remote'']\<rparr>)"
  by code_simp

lemma eval_behind:
  "status_result rt_behind repo_dir =
     Inr (clean_status\<lparr>behind := 3, health_score := 90,
                       issues := [''3 commit(s) behind remote'']\<rparr>)"
  by code_simp

lemma eval_future:
  "status_result rt_future repo_dir =
     Inr (clean_status\<lparr>last_commit_date := ''2026-01-12T09:30:00+02:00'',
                       last_commit_age_days := - 2, last_commit_message := ''Planned work''\<rparr>)"
  by code_simp

lemma eval_future_branch:
  "fst (read_branch_age rt_future repo_dir (new_BranchInfo ''main'' True ''origin/main'')) =
     \<lparr>branch_name = ''main'', branch_is_current = True,
      branch_last_commit_date = ''2026-01-12T09:30:00+02:00'',
      branch_last_commit_age_days = - 2, branch_ahead = 0, branch_behind = 0,
      branch_tracking = ''origin/main''\<rparr>"
  by code_simp

lemma eval_not_a_repo:
  "validity_rc rt_not_a_repo repo_dir = 128"
  "validity_stderr rt_not_a_repo repo_dir = ''fatal: not a git repository''"
  "validity_rc rt_clean repo_dir = 0"
  by code_simp+

lemma status_of_eq: "status_result rt p = Inr s \<Longrightarrow> status_of rt p = s"
  by (simp add: status_of_def)

text \<open>
  Claim C2, at its failing input. The listing of \<open>rt_unstaged\<close> is the single line
  \<open>'' M a.txt''\<close>, whose status characters are a blank and \<open>M\<close>; the claim has it
  increment the modified counter only. The runner strips the output before the parser
  splits it, the line arrives as \<open>''M a.txt''\<close>, and the extractor counts one staged and
  no modified path.
\<close>

theorem C2_first_line_loses_blank:
  "status_result rt_unstaged repo_dir \<noteq> Inl IndexError
   \<and> staged_count (status_of rt_unstaged repo_dir) = 1
   \<and> modified_count (status_of rt_unstaged repo_dir) = 0"
  by (simp add: eval_unstaged status_of_eq [OF eval_unstaged] clean_status_def)

text \<open>
  Claim C7, at its failing input. The ahead/behind query of \<open>rt_bad_count\<close> answers
  \<open>''3 x''\<close>: two fields, the second not an integer. The claim has both counters stay 0;
  the extractor has already stored the first field in \<open>behind\<close> when the second fails
  to parse.
\<close>

theorem C7_behind_kept_on_parse_failure:
  "py_int ''x'' = None
   \<and> behind (status_of rt_bad_count repo_dir) = 3
   \<and> ahead (status_of rt_bad_count repo_dir) = 0"
proof -
  have "py_int ''x'' = None" by code_simp
  then show ?thesis
    by (simp add: status_of_eq [OF eval_bad_count] clean_status_def)
qed


subsection \<open>Claims about the extractor\<close>

text \<open>
  Claim C5. Every call of the extractor returns a record whose five working-tree counters
  are non-negative and whose \<open>is_dirty\<close> holds exactly when their sum is positive, that is,
  exactly when one of them is.
\<close>

theorem C5_is_dirty_iff_counters:
  "\<exists>s rt'. get_repo_status rt p = Inr (s, rt')
      \<and> 0 \<le> staged_count s \<and> 0 \<le> modified_count s \<and> 0 \<le> untracked_count s
      \<and> 0 \<le> deleted_count s \<and> 0 \<le> conflict_count s
      \<and> (is_dirty s \<longleftrightarrow>
            staged_count s + modified_count s + untracked_count s + deleted_count s
              + conflict_count s > 0)
      \<and> (is_dirty s \<longleftrightarrow>
            (0 < staged_count s \<or> 0 < modified_count s \<or> 0 < untracked_count s
              \<or> 0 < deleted_count s \<or> 0 < conflict_count s))"
proof (cases "validity_rc rt p = 0")
  case True
  from get_repo_status_valid [OF True] obtain s rt' where
    r: "get_repo_status rt p = Inr (set_health s, rt')" and n: "nonneg_counts s"
    and d: "is_dirty s = (staged_count s > 0 \<or> modified_count s > 0 \<or> untracked_count s > 0
                              \<or> deleted_count s > 0 \<or> conflict_count s > 0)"
    by blast
  have "0 \<le> staged_count (set_health s) \<and> 0 \<le> modified_count (set_health s)
      \<and> 0 \<le> untracked_count (set_health s) \<and> 0 \<le> deleted_count (set_health s)
      \<and> 0 \<le> conflict_count (set_health s)
      \<and> (is_dirty (set_health s) \<longleftrightarrow>
            staged_count (set_health s) + modified_count (set_health s)
              + untracked_count (set_health s) + deleted_count (set_health s)
              + conflict_count (set_health s) > 0)
      \<and> (is_dirty (set_health s) \<longleftrightarrow>
            (0 < staged_count (set_health s) \<or> 0 < modified_count (set_health s)
              \<or> 0 < untracked_count (set_health s) \<or> 0 < deleted_count (set_health s)
              \<or> 0 < conflict_count (set_health s)))"
    using n d unfolding set_health_fields nonneg_counts_def by arith
  with r show ?thesis by blast
next
  case False
  show ?thesis
    unfolding get_repo_status_invalid [OF False]
    by (simp add: new_RepoStatus_def)
qed

text \<open>
  Claim C8. When the validity check fails, the extractor returns at once: the record is the
  freshly constructed one with only \<open>error\<close> (a non-empty text), \<open>health_score = 0\<close> and
  \<open>health_grade = F\<close> changed, and the validity query is the only command issued.
  Conversely, when the check succeeds the returned record has an empty \<open>error\<close>.
\<close>

theorem C8_invalid_repository:
  "(validity_rc rt p \<noteq> 0 \<longrightarrow>
      get_repo_status rt p =
        Inr ((new_RepoStatus (path_name p) (path_str p))
               \<lparr>error := ''Not a valid git repo: '' @ validity_stderr rt p,
                health_score := 0, health_grade := ''F''\<rparr>,
             rt\<lparr>issued := issued rt @ [[''rev-parse'', ''--git-dir'']]\<rparr>)
      \<and> ''Not a valid git repo: '' @ validity_stderr rt p \<noteq> [])
   \<and> (validity_rc rt p = 0 \<longrightarrow>
        (\<exists>s rt'. get_repo_status rt p = Inr (s, rt') \<and> error s = []))"
proof (intro conjI impI)
  assume "validity_rc rt p \<noteq> 0"
  then show "get_repo_status rt p =
        Inr ((new_RepoStatus (path_name p) (path_str p))
               \<lparr>error := ''Not a valid git repo: '' @ validity_stderr rt p,
                health_score := 0, health_grade := ''F''\<rparr>,
             rt\<lparr>issued := issued rt @ [[''rev-parse'', ''--git-dir'']]\<rparr>)"
    by (rule get_repo_status_invalid)
next
  show "''Not a valid git repo: '' @ validity_stderr rt p \<noteq> []" by simp
next
  assume "validity_rc rt p = 0"
  from get_repo_status_valid [OF this] obtain s rt' where
    "get_repo_status rt p = Inr (set_health s, rt')" "error s = []"
    by blast
  then have "get_repo_status rt p = Inr (set_health s, rt') \<and> error (set_health s) = []"
    by (simp add: set_health_fields)
  then show "\<exists>s rt'. get_repo_status rt p = Inr (s, rt') \<and> error s = []" by blast
qed

theorem C8_invalid_repository_witness:
  "validity_rc rt_not_a_repo repo_dir \<noteq> 0
   \<and> get_repo_status rt_not_a_repo repo_dir =
        Inr ((new_RepoStatus ''repo'' ''/work/repo'')
               \<lparr>error := ''Not a valid git repo: fatal: not a git repository'',
                health_score := 0, health_grade := ''F''\<rparr>,
             rt_not_a_repo\<lparr>issued := [[''rev-parse'', ''--git-dir'']]\<rparr>)
   \<and> validity_rc rt_clean repo_dir = 0
   \<and> (\<exists>s rt'. get_repo_status rt_clean repo_dir = Inr (s, rt') \<and> error s = [])"
proof -
  have a: "validity_rc rt_not_a_repo repo_dir \<noteq> 0" and b: "validity_rc rt_clean repo_dir = 0"
    by (simp_all add: eval_not_a_repo)
  have i: "issued rt_not_a_repo = []"
    by (simp add: rt_not_a_repo_def runtime_of_def)
  have n: "path_name repo_dir = ''repo''" "path_str repo_dir = ''/work/repo''"
    by (simp_all add: repo_dir_def path_name_def path_str_def)
  from C8_invalid_repository [of rt_not_a_repo repo_dir] a
  have "get_repo_status rt_not_a_repo repo_dir =
        Inr ((new_RepoStatus ''repo'' ''/work/repo'')
               \<lparr>error := ''Not a valid git repo: fatal: not a git repository'',
                health_score := 0, health_grade := ''F''\<rparr>,
             rt_not_a_repo\<lparr>issued := [[''rev-parse'', ''--git-dir'']]\<rparr>)"
    by (simp add: eval_not_a_repo i n)
  moreover from C8_invalid_repository [of rt_clean repo_dir] b
  have "\<exists>s rt'. get_repo_status rt_clean repo_dir = Inr (s, rt') \<and> error s = []"
    by blast
  ultimately show ?thesis using a b by blast
qed



subsection \<open>A perfect score\<close>

lemma triggered_empty_iff:
  "triggered s = [] \<longleftrightarrow>
     has_remote s \<and> \<not> 0 < staged_count s \<and> \<not> 0 < modified_count s
     \<and> \<not> 0 < untracked_count s \<and> \<not> 0 < deleted_count s \<and> \<not> 0 < behind s
     \<and> \<not> 5 < ahead s \<and> \<not> 30 < last_commit_age_days s \<and> \<not> is_detached s
     \<and> \<not> 0 < conflict_count s \<and> total_commits s \<noteq> 0 \<and> \<not> 0 < stash_count s"
  by (auto simp add: triggered_def penalty_table_def filter_empty_conv)

lemma perfect_iff_none_triggered:
  "fst (calculate_health s) = 100 \<and> snd (snd (calculate_health s)) = [] \<longleftrightarrow> triggered s = []"
  by (auto simp add: calculate_health_normal triggered_issues_def penalty_sum_def)

text \<open>
  Claim C3, as the code has it. For every record the extractor returns with a
  non-negative commit count, the score is 100 with no issues exactly when there is a
  remote, at least one commit, a last commit at most 30 days old, no dirty, conflict,
  detached or stash state, and in addition the branch is not behind its upstream and at
  most 5 commits ahead of it.
\<close>

theorem C3_perfect_score_iff:
  "\<exists>s rt'. get_repo_status rt p = Inr (s, rt')
     \<and> (0 \<le> total_commits s \<longrightarrow>
          ((health_score s = 100 \<and> issues s = []) \<longleftrightarrow>
           (has_remote s \<and> total_commits s > 0 \<and> last_commit_age_days s \<le> 30
            \<and> \<not> is_dirty s \<and> staged_count s = 0 \<and> modified_count s = 0
            \<and> untracked_count s = 0 \<and> deleted_count s = 0 \<and> conflict_count s = 0
            \<and> \<not> is_detached s \<and> stash_count s = 0
            \<and> behind s \<le> 0 \<and> ahead s \<le> 5)))"
proof (cases "validity_rc rt p = 0")
  case True
  from get_repo_status_valid [OF True] obtain s rt' where
    r: "get_repo_status rt p = Inr (set_health s, rt')" and n: "nonneg_counts s"
    and st: "0 \<le> stash_count s"
    and d: "is_dirty s = (staged_count s > 0 \<or> modified_count s > 0 \<or> untracked_count s > 0
                              \<or> deleted_count s > 0 \<or> conflict_count s > 0)"
    by blast
  have "(fst (calculate_health s) = 100 \<and> snd (snd (calculate_health s)) = []) \<longleftrightarrow>
           (has_remote s \<and> total_commits s > 0 \<and> last_commit_age_days s \<le> 30
            \<and> \<not> is_dirty s \<and> staged_count s = 0 \<and> modified_count s = 0
            \<and> untracked_count s = 0 \<and> deleted_count s = 0 \<and> conflict_count s = 0
            \<and> \<not> is_detached s \<and> stash_count s = 0
            \<and> behind s \<le> 0 \<and> ahead s \<le> 5)"
    if "0 \<le> total_commits s"
    unfolding perfect_iff_none_triggered triggered_empty_iff d
    using n st that unfolding nonneg_counts_def by arith
  then have "0 \<le> total_commits (set_health s) \<longrightarrow>
          ((health_score (set_health s) = 100 \<and> issues (set_health s) = []) \<longleftrightarrow>
           (has_remote (set_health s) \<and> total_commits (set_health s) > 0
            \<and> last_commit_age_days (set_health s) \<le> 30
            \<and> \<not> is_dirty (set_health s) \<and> staged_count (set_health s) = 0
            \<and> modified_count (set_health s) = 0
            \<and> untracked_count (set_health s) = 0 \<and> deleted_count (set_health s) = 0
            \<and> conflict_count (set_health s) = 0
            \<and> \<not> is_detached (set_health s) \<and> stash_count (set_health s) = 0
            \<and> behind (set_health s) \<le> 0 \<and> ahead (set_health s) \<le> 5))"
    unfolding set_health_fields by blast
  with r show ?thesis by blast
next
  case False
  show ?thesis
    unfolding get_repo_status_invalid [OF False]
    by (simp add: new_RepoStatus_def)
qed

theorem C3_perfect_score_iff_witness:
  "get_repo_status rt_clean repo_dir \<noteq> Inl IndexError
   \<and> 0 \<le> total_commits (status_of rt_clean repo_dir)
   \<and> health_score (status_of rt_clean repo_dir) = 100
   \<and> issues (status_of rt_clean repo_dir) = []
   \<and> behind (status_of rt_clean repo_dir) \<le> 0
   \<and> ahead (status_of rt_clean repo_dir) \<le> 5"
proof -
  from C3_perfect_score_iff [of rt_clean repo_dir] obtain s rt' where
    r: "get_repo_status rt_clean repo_dir = Inr (s, rt')"
    and c: "0 \<le> total_commits s \<longrightarrow>
          ((health_score s = 100 \<and> issues s = []) \<longleftrightarrow>
           (has_remote s \<and> total_commits s > 0 \<and> last_commit_age_days s \<le> 30
            \<and> \<not> is_dirty s \<and> staged_count s = 0 \<and> modified_count s = 0
            \<and> untracked_count s = 0 \<and> deleted_count s = 0 \<and> conflict_count s = 0
            \<and> \<not> is_detached s \<and> stash_count s = 0
            \<and> behind s \<le> 0 \<and> ahead s \<le> 5))"
    by blast
  from r eval_clean have s: "s = clean_status"
    by (simp add: status_result_def)
  have so: "status_of rt_clean repo_dir = clean_status"
    by (rule status_of_eq [OF eval_clean])
  have t: "0 \<le> total_commits clean_status" by (simp add: clean_status_def)
  have rhs: "has_remote clean_status \<and> total_commits clean_status > 0
       \<and> last_commit_age_days clean_status \<le> 30
       \<and> \<not> is_dirty clean_status \<and> staged_count clean_status = 0
       \<and> modified_count clean_status = 0
       \<and> untracked_count clean_status = 0 \<and> deleted_count clean_status = 0
       \<and> conflict_count clean_status = 0
       \<and> \<not> is_detached clean_status \<and> stash_count clean_status = 0
       \<and> behind clean_status \<le> 0 \<and> ahead clean_status \<le> 5"
    by (simp add: clean_status_def)
  from c t rhs have "health_score clean_status = 100 \<and> issues clean_status = []"
    unfolding s by blast
  with r t rhs show ?thesis unfolding so by simp
qed

text \<open>
  The claim as stated fails on \<open>rt_behind\<close>: a remote, ten commits, a commit of the day
  before, a clean tree, no stash, a named branch, and three commits behind the upstream.
  Every condition the claim lists holds, and the score is 90 with one issue.
\<close>

theorem C3_counterexample:
  "\<not> ((health_score (status_of rt_behind repo_dir) = 100
        \<and> issues (status_of rt_behind repo_dir) = []) \<longleftrightarrow>
       (has_remote (status_of rt_behind repo_dir)
        \<and> total_commits (status_of rt_behind repo_dir) > 0
        \<and> last_commit_age_days (status_of rt_behind repo_dir) \<le> 30
        \<and> \<not> is_dirty (status_of rt_behind repo_dir)
        \<and> staged_count (status_of rt_behind repo_dir) = 0
        \<and> modified_count (status_of rt_behind repo_dir) = 0
        \<and> untracked_count (status_of rt_behind repo_dir) = 0
        \<and> deleted_count (status_of rt_behind repo_dir) = 0
        \<and> conflict_count (status_of rt_behind repo_dir) = 0
        \<and> \<not> is_detached (status_of rt_behind repo_dir)
        \<and> stash_count (status_of rt_behind repo_dir) = 0))"
  by (simp add: status_of_eq [OF eval_behind] clean_status_def)

subsection \<open>The age of the last commit\<close>

lemma floor_days_div: "floor_days delta (delta div 86400000000)"
proof -
  define q where "q = delta div 86400000000"
  define r where "r = delta mod 86400000000"
  have m: "0 \<le> r" "r < 86400000000"
    by (simp_all add: r_def)
  have e: "delta = q * 86400000000 + r"
    by (simp add: q_def r_def)
  have "q * 86400000000 \<le> delta \<and> delta < (q + 1) * 86400000000"
    unfolding e using m by (simp add: algebra_simps)
  then show ?thesis
    unfolding floor_days_def q_def .
qed


lemma div_day_sign:
  "(0 \<le> (delta::int) div 86400000000 \<longleftrightarrow> 0 \<le> delta)"
  "((delta::int) div 86400000000 < 0 \<longleftrightarrow> delta < 0)"
  by (simp_all add: pos_imp_zdiv_nonneg_iff pos_imp_zdiv_neg_iff)

lemma age_of_date_commit_age_days:
  "age_of_date rt d (case commit_age_days rt d of None \<Rightarrow> 0 | Some a \<Rightarrow> a)"
proof (cases "fromisoformat rt d")
  case None
  then show ?thesis by (simp add: age_of_date_def commit_age_days_def)
next
  case (Some dt)
  define delta where "delta = utc_now_us rt - commit_utc_us dt"
  have c: "commit_age_days rt d = Some (delta div 86400000000)"
    using Some by (simp add: commit_age_days_def commit_utc_us_def delta_def Let_def)
  have "floor_days delta (delta div 86400000000)
      \<and> (0 \<le> delta div 86400000000 \<longleftrightarrow> commit_utc_us dt \<le> utc_now_us rt)
      \<and> (delta div 86400000000 < 0 \<longleftrightarrow> utc_now_us rt < commit_utc_us dt)"
    using floor_days_div [of delta] by (simp add: div_day_sign) (simp add: delta_def)
  then show ?thesis
    using Some by (simp add: age_of_date_def c delta_def)
qed

lemma read_branch_age_exact:
  "case branch_commit_read rt p n of
     None \<Rightarrow>
       branch_last_commit_age_days (fst (read_branch_age rt p (new_BranchInfo n cur tr))) = 0
   | Some d \<Rightarrow>
       branch_last_commit_date (fst (read_branch_age rt p (new_BranchInfo n cur tr))) = d
       \<and> branch_last_commit_age_days (fst (read_branch_age rt p (new_BranchInfo n cur tr)))
           = (case commit_age_days rt d of None \<Rightarrow> 0 | Some a \<Rightarrow> a)"
proof -
  obtain out err rc where
    g: "fst (run_git rt p [''log'', ''-1'', ''--format=%aI'', n]) = (out, err, rc)"
    by (cases "fst (run_git rt p [''log'', ''-1'', ''--format=%aI'', n])") auto
  have c: "commit_age_days (snd (run_git rt p [''log'', ''-1'', ''--format=%aI'', n])) t
          = commit_age_days rt t" for t
    by (rule commit_age_days_clock) simp
  show ?thesis
  proof (cases "rc = 0 \<and> out \<noteq> []")
    case False
    then have "branch_commit_read rt p n = None"
      "fst (read_branch_age rt p (new_BranchInfo n cur tr)) = new_BranchInfo n cur tr"
      using g by (auto simp add: branch_commit_read_def read_branch_age_def new_BranchInfo_def
          split_beta)
    then show ?thesis by (simp add: new_BranchInfo_def)
  next
    case True
    then have r: "branch_commit_read rt p n = Some out"
      using g by (simp add: branch_commit_read_def)
    have "fst (read_branch_age rt p (new_BranchInfo n cur tr)) =
              (case commit_age_days rt out of
                 None \<Rightarrow> (new_BranchInfo n cur tr)\<lparr>branch_last_commit_date := out\<rparr>
               | Some a \<Rightarrow> (new_BranchInfo n cur tr)\<lparr>branch_last_commit_date := out,
                              branch_last_commit_age_days := a\<rparr>)"
      using g True c
      by (simp add: read_branch_age_def new_BranchInfo_def split_beta Let_def
          split: option.splits)
    then show ?thesis
      unfolding r by (simp add: new_BranchInfo_def split: option.splits)
  qed
qed

lemma eval_future_reads:
  "validity_rc rt_future repo_dir = 0"
  "last_commit_read rt_future repo_dir = Some ''2026-01-12T09:30:00+02:00''"
  "branch_commit_read rt_future repo_dir ''main'' = Some ''2026-01-12T09:30:00+02:00''"
  by code_simp+

text \<open>
  Claim C9, as the code has it. Every call of the extractor returns a record whose age
  is fixed by what the last-commit query yields: when the repository is valid and the
  query yields a date text, that text is the record's \<open>last_commit_date\<close> and the age is
  \<open>age_of_date\<close> of it, that is, 0 when the text does not parse and otherwise the floor,
  in whole days, of the time elapsed from the commit at UTC (an unmarked time taken as
  UTC) to the clock, non-negative exactly when the commit is not later than the clock
  and negative when it is later; in every other case the age is the default 0. The same
  holds of a branch record and the date its own query yields.
\<close>

theorem C9_age_is_floor_of_elapsed_days:
  "(\<exists>s rt'. get_repo_status rt p = Inr (s, rt')
      \<and> (if validity_rc rt p = 0
          then (case last_commit_read rt p of
                  None \<Rightarrow> last_commit_age_days s = 0
                | Some d \<Rightarrow> last_commit_date s = d \<and> age_of_date rt d (last_commit_age_days s))
          else last_commit_age_days s = 0))
   \<and> (case branch_commit_read rt p n of
         None \<Rightarrow>
           branch_last_commit_age_days (fst (read_branch_age rt p (new_BranchInfo n cur tr))) = 0
       | Some d \<Rightarrow>
           branch_last_commit_date (fst (read_branch_age rt p (new_BranchInfo n cur tr))) = d
           \<and> age_of_date rt d
                (branch_last_commit_age_days
                   (fst (read_branch_age rt p (new_BranchInfo n cur tr)))))"
proof
  show "\<exists>s rt'. get_repo_status rt p = Inr (s, rt')
      \<and> (if validity_rc rt p = 0
          then (case last_commit_read rt p of
                  None \<Rightarrow> last_commit_age_days s = 0
                | Some d \<Rightarrow> last_commit_date s = d \<and> age_of_date rt d (last_commit_age_days s))
          else last_commit_age_days s = 0)"
  proof (cases "validity_rc rt p = 0")
    case True
    from get_repo_status_valid [OF True] obtain s rt' where
      r: "get_repo_status rt p = Inr (set_health s, rt')"
      and a: "case last_commit_read rt p of
                 None \<Rightarrow> last_commit_date s = [] \<and> last_commit_age_days s = 0
               | Some d \<Rightarrow>
                   last_commit_date s = d
                   \<and> last_commit_age_days s
                       = (case commit_age_days rt d of None \<Rightarrow> 0 | Some a \<Rightarrow> a)"
      by blast
    have "case last_commit_read rt p of
            None \<Rightarrow> last_commit_age_days (set_health s) = 0
          | Some d \<Rightarrow> last_commit_date (set_health s) = d
                      \<and> age_of_date rt d (last_commit_age_days (set_health s))"
      using a age_of_date_commit_age_days [of rt]
      unfolding set_health_fields by (simp split: option.splits)
    with r True show ?thesis by simp
  next
    case False
    show ?thesis
      unfolding get_repo_status_invalid [OF False]
      using False by (simp add: new_RepoStatus_def)
  qed
next
  show "case branch_commit_read rt p n of
         None \<Rightarrow>
           branch_last_commit_age_days (fst (read_branch_age rt p (new_BranchInfo n cur tr))) = 0
       | Some d \<Rightarrow>
           branch_last_commit_date (fst (read_branch_age rt p (new_BranchInfo n cur tr))) = d
           \<and> age_of_date rt d
                (branch_last_commit_age_days
                   (fst (read_branch_age rt p (new_BranchInfo n cur tr))))"
    using read_branch_age_exact [of rt p n cur tr] age_of_date_commit_age_days [of rt]
    by (simp split: option.splits)
qed

text \<open>
  On \<open>rt_future\<close> the query yields 2026-01-12T09:30+02:00, which parses and lies
  113400 seconds after the clock: the theorem fixes the age of the status record and of
  the branch record to the floor of that, -2.
\<close>

theorem C9_age_is_floor_of_elapsed_days_witness:
  "validity_rc rt_future repo_dir = 0
   \<and> last_commit_read rt_future repo_dir = Some ''2026-01-12T09:30:00+02:00''
   \<and> branch_commit_read rt_future repo_dir ''main'' = Some ''2026-01-12T09:30:00+02:00''
   \<and> (\<exists>s rt'. get_repo_status rt_future repo_dir = Inr (s, rt')
         \<and> last_commit_date s = ''2026-01-12T09:30:00+02:00''
         \<and> last_commit_age_days s = - 2)
   \<and> branch_last_commit_age_days
        (fst (read_branch_age rt_future repo_dir (new_BranchInfo ''main'' True ''origin/main'')))
      = - 2"
proof -
  let ?d = "''2026-01-12T09:30:00+02:00''"
  let ?b = "fst (read_branch_age rt_future repo_dir (new_BranchInfo ''main'' True ''origin/main''))"
  have iso: "fromisoformat rt_future ?d
     = Some \<lparr>wall_us = 1768210200000000, utcoffset_us = Some 7200000000\<rparr>"
    and now: "utc_now_us rt_future = 1768089600000000"
    by (simp_all add: rt_future_def runtime_of_def iso_table_def)
  have pin: "a = - 2" if "age_of_date rt_future ?d a" for a
    using that unfolding age_of_date_def iso now
    by (simp add: commit_utc_us_def floor_days_def)
  from C9_age_is_floor_of_elapsed_days [of rt_future repo_dir "''main''" True "''origin/main''"]
  obtain s rt' where r: "get_repo_status rt_future repo_dir = Inr (s, rt')"
    and a: "last_commit_date s = ?d \<and> age_of_date rt_future ?d (last_commit_age_days s)"
    and b: "branch_last_commit_date ?b = ?d
            \<and> age_of_date rt_future ?d (branch_last_commit_age_days ?b)"
    unfolding eval_future_reads by auto
  from a b pin have "last_commit_age_days s = - 2" "branch_last_commit_age_days ?b = - 2"
    by simp_all
  with r a show ?thesis
    unfolding eval_future_reads by auto
qed

text \<open>
  The claim as stated fails on \<open>rt_future\<close>: the author date 2026-01-12T09:30+02:00
  parses and lies after the clock reading 2026-01-11T00:00Z, and both the status record
  and the branch record get the age -2.
\<close>

theorem C9_counterexample:
  "fromisoformat rt_future ''2026-01-12T09:30:00+02:00''
     = Some \<lparr>wall_us = 1768210200000000, utcoffset_us = Some 7200000000\<rparr>
   \<and> last_commit_age_days (status_of rt_future repo_dir) = - 2
   \<and> branch_last_commit_age_days
       (fst (read_branch_age rt_future repo_dir (new_BranchInfo ''main'' True ''origin/main'')))
     = - 2"
proof -
  have "fromisoformat rt_future ''2026-01-12T09:30:00+02:00''
     = Some \<lparr>wall_us = 1768210200000000, utcoffset_us = Some 7200000000\<rparr>"
    by (simp add: rt_future_def runtime_of_def iso_table_def)
  then show ?thesis
    by (simp add: status_of_eq [OF eval_future] eval_future_branch)
qed

section \<open>Properties of the repository locator\<close>

lemma visit_entries_concat:
  "visit_entries f fs es acc =
     acc @ concat (map f (filter (eligible fs) (takeWhile (\<lambda>e. \<not> isl (fs_is_dir fs e)) es)))"
proof (induction es arbitrary: acc)
  case Nil
  then show ?case by simp
next
  case (Cons e es)
  show ?case
  proof (cases "fs_is_dir fs e")
    case (Inl x)
    then show ?thesis by simp
  next
    case (Inr d)
    then show ?thesis
      using Cons.IH by (simp add: eligible_def)
  qed
qed

lemma find_repos_too_deep: "depth > max_depth \<Longrightarrow> find_repos fs max_depth root depth = []"
  by (simp add: find_repos.simps)

lemma find_repos_marked:
  "depth \<le> max_depth \<Longrightarrow> has_marker fs root = Inr True \<Longrightarrow>
     find_repos fs max_depth root depth = [root]"
  by (simp add: find_repos.simps)

lemma find_repos_probe_fails:
  "has_marker fs root = Inl e \<Longrightarrow> find_repos fs max_depth root depth = []"
  by (simp add: find_repos.simps)

lemma find_repos_listing_fails:
  "has_marker fs root = Inr False \<Longrightarrow> fs_iterdir fs root = Inl e \<Longrightarrow>
     find_repos fs max_depth root depth = []"
  by (simp add: find_repos.simps)

lemma find_repos_unmarked:
  "depth \<le> max_depth \<Longrightarrow> has_marker fs root = Inr False \<Longrightarrow> fs_iterdir fs root = Inr names \<Longrightarrow>
     find_repos fs max_depth root depth =
       concat (map (\<lambda>entry. find_repos fs max_depth entry (depth + 1))
                 (filter (eligible fs)
                    (takeWhile (\<lambda>e. \<not> isl (fs_is_dir fs e))
                       (sort (map (\<lambda>n. root @ [n]) names)))))"
  by (subst find_repos.simps) (simp add: visit_entries_concat)

lemma find_repos_at_limit:
  assumes "depth = max_depth" "has_marker fs root \<noteq> Inr True"
  shows "find_repos fs max_depth root depth = []"
proof (cases "has_marker fs root")
  case (Inl e)
  then show ?thesis by (rule find_repos_probe_fails)
next
  case (Inr b)
  with assms have m: "has_marker fs root = Inr False" by simp
  show ?thesis
  proof (cases "fs_iterdir fs root")
    case (Inl e)
    with m show ?thesis by (rule find_repos_listing_fails)
  next
    case (Inr names)
    have "find_repos fs max_depth entry (depth + 1) = []" for entry
      using assms(1) by (simp add: find_repos_too_deep)
    with find_repos_unmarked [OF _ m Inr, of depth max_depth] assms(1) show ?thesis
      by simp
  qed
qed

lemma located_here:
  "depth \<le> max_depth \<Longrightarrow> has_marker fs root = Inr True \<Longrightarrow> located fs max_depth root depth root"
  unfolding located_def by (rule exI [of _ "[]"]) simp

lemma located_below:
  assumes "has_marker fs root = Inr False"
    and "\<not> startswith_dot n" "n \<notin> set skip_names"
    and "located fs max_depth (root @ [n]) (depth + 1) p"
  shows "located fs max_depth root depth p"
proof -
  from assms(4) obtain names where
    p: "p = (root @ [n]) @ names"
    and d: "depth + 1 + int (length names) \<le> max_depth"
    and m: "has_marker fs p = Inr True"
    and s: "\<forall>x \<in> set names. \<not> startswith_dot x \<and> x \<notin> set skip_names"
    and a: "\<forall>k < length names. has_marker fs ((root @ [n]) @ take k names) = Inr False"
    unfolding located_def by blast
  have "has_marker fs (root @ take k (n # names)) = Inr False" if "k < length (n # names)" for k
  proof (cases k)
    case 0
    then show ?thesis using assms(1) by simp
  next
    case (Suc j)
    with that have "j < length names" by simp
    with a have "has_marker fs ((root @ [n]) @ take j names) = Inr False" by blast
    with Suc show ?thesis by simp
  qed
  with p d m s assms(2,3) show ?thesis
    unfolding located_def by (intro exI [of _ "n # names"]) simp
qed

lemma find_repos_located:
  "p \<in> set (find_repos fs max_depth root depth) \<Longrightarrow> located fs max_depth root depth p"
proof (induction fs max_depth root depth arbitrary: p rule: find_repos.induct)
  case (1 fs max_depth root depth)
  from "1.prems" have le: "depth \<le> max_depth"
    by (cases "depth > max_depth") (simp_all add: find_repos_too_deep)
  show ?case
  proof (cases "has_marker fs root")
    case (Inl e)
    with "1.prems" show ?thesis by (simp add: find_repos_probe_fails)
  next
    case (Inr b)
    note hm = this
    show ?thesis
    proof (cases b)
      case True
      with hm le "1.prems" show ?thesis
        by (simp add: find_repos_marked located_here)
    next
      case False
      then have bf: "b = False" by simp
      with hm have m: "has_marker fs root = Inr False" by simp
      from le have nd: "\<not> max_depth < depth" by simp
      show ?thesis
      proof (cases "fs_iterdir fs root")
        case (Inl e)
        with m "1.prems" show ?thesis by (simp add: find_repos_listing_fails)
      next
        case (Inr names)
        from "1.prems" obtain entry where
          e: "entry \<in> set (sort (map (\<lambda>n. root @ [n]) names))" "eligible fs entry"
          and pe: "p \<in> set (find_repos fs max_depth entry (depth + 1))"
          unfolding find_repos_unmarked [OF le m Inr]
          by (auto dest: set_takeWhileD)
        from e(1) obtain n where n: "entry = root @ [n]" by auto
        have "located fs max_depth entry (depth + 1) p"
          by (rule "1.IH" [OF nd hm bf Inr e(1) pe])
        moreover from e(2) have "\<not> startswith_dot n" "n \<notin> set skip_names"
          by (simp_all add: eligible_def n path_name_def)
        ultimately show ?thesis
          using located_below [OF m, of n max_depth depth p] n by simp
      qed
    qed
  qed
qed

subsection \<open>The locator on the concrete tree\<close>

lemma eval_work_tree:
  "find_repos (fs_of work_tree) 3 [''work''] 0 =
     [[''work'', ''group'', ''deep'', ''far''], [''work'', ''group'', ''inner''],
      [''work'', ''repo'']]"
  "find_repos (fs_of work_tree) 2 [''work''] 0 =
     [[''work'', ''group'', ''inner''], [''work'', ''repo'']]"
  by code_simp+

lemma eval_work_tree_probes:
  "has_marker (fs_of work_tree) [''work'', ''repo''] = Inr True"
  "has_marker (fs_of work_tree) [''work'', ''locked''] = Inr False"
  "fs_iterdir (fs_of work_tree) [''work'', ''locked''] = Inl PermissionDenied"
  "has_marker (fs_of work_tree) [''work'', ''group'', ''deep''] = Inr False"
  "has_marker (fs_of work_tree) [''work'', ''group''] = Inr False"
  "fs_iterdir (fs_of work_tree) [''work'', ''group''] = Inr [''inner'', ''deep'']"
  by code_simp+

text \<open>
  The rules of the locator in one statement. At a directory within the depth limit: if
  it holds the marker directory it is the one root returned, whatever lies below it;
  otherwise the result is the concatenation, over its entries in lexical order, of the
  results of the entries that are directories, do not start with a dot and are not
  skip-listed, each taken one level deeper (entries after one whose \<open>is_dir\<close> raises are
  not reached). Beyond the limit nothing is returned, so a directory at exactly the limit
  is checked for the marker and its children are not. A directory whose listing fails
  contributes nothing. Every path returned is \<open>located\<close>.
\<close>

lemma find_repos_rules:
  "(depth \<le> max_depth \<and> has_marker fs root = Inr True
      \<longrightarrow> find_repos fs max_depth root depth = [root])
   \<and> (depth \<le> max_depth \<and> has_marker fs root = Inr False \<and> fs_iterdir fs root = Inr names
      \<longrightarrow> find_repos fs max_depth root depth =
            concat (map (\<lambda>entry. find_repos fs max_depth entry (depth + 1))
                      (filter (eligible fs)
                         (takeWhile (\<lambda>e. \<not> isl (fs_is_dir fs e))
                            (sort (map (\<lambda>n. root @ [n]) names))))))
   \<and> (depth = max_depth \<and> has_marker fs root \<noteq> Inr True
      \<longrightarrow> find_repos fs max_depth root depth = [])
   \<and> (depth > max_depth \<longrightarrow> find_repos fs max_depth root depth = [])
   \<and> (has_marker fs root = Inr False \<and> fs_iterdir fs root = Inl e
      \<longrightarrow> find_repos fs max_depth root depth = [])
   \<and> (\<forall>p \<in> set (find_repos fs max_depth root depth). located fs max_depth root depth p)"
  using find_repos_marked [of depth max_depth fs root]
    find_repos_unmarked [of depth max_depth fs root names]
    find_repos_at_limit [of depth max_depth fs root]
    find_repos_too_deep [of max_depth depth fs root]
    find_repos_listing_fails [of fs root e max_depth depth]
    find_repos_located [of _ fs max_depth root depth]
  by blast

lemma find_repos_rules_on_work_tree:
  "find_repos (fs_of work_tree) 3 [''work'', ''repo''] 1 = [[''work'', ''repo'']]
   \<and> find_repos (fs_of work_tree) 3 [''work'', ''group''] 1 =
       find_repos (fs_of work_tree) 3 [''work'', ''group'', ''deep''] 2
       @ find_repos (fs_of work_tree) 3 [''work'', ''group'', ''inner''] 2
   \<and> find_repos (fs_of work_tree) 2 [''work'', ''group'', ''deep''] 2 = []
   \<and> find_repos (fs_of work_tree) 3 [''work'', ''locked''] 1 = []
   \<and> located (fs_of work_tree) 3 [''work''] 0 [''work'', ''group'', ''deep'', ''far'']"
proof -
  let ?fs = "fs_of work_tree"
  have a: "find_repos ?fs 3 [''work'', ''repo''] 1 = [[''work'', ''repo'']]"
    using find_repos_rules [of 1 3 ?fs "[''work'', ''repo'']"] eval_work_tree_probes(1)
    by simp
  have srt: "filter (eligible ?fs)
               (takeWhile (\<lambda>e. \<not> isl (fs_is_dir ?fs e))
                  (sort (map (\<lambda>n. [''work'', ''group''] @ [n]) [''inner'', ''deep''])))
             = [[''work'', ''group'', ''deep''], [''work'', ''group'', ''inner'']]"
    by code_simp
  have b: "find_repos ?fs 3 [''work'', ''group''] 1 =
       find_repos ?fs 3 [''work'', ''group'', ''deep''] 2
       @ find_repos ?fs 3 [''work'', ''group'', ''inner''] 2"
  proof -
    have le: "(1::int) \<le> 3" by simp
    from find_repos_rules [of 1 3 ?fs "[''work'', ''group'']" "[''inner'', ''deep'']"]
      eval_work_tree_probes(5,6) le
    have "find_repos ?fs 3 [''work'', ''group''] 1 =
            concat (map (\<lambda>entry. find_repos ?fs 3 entry (1 + 1))
                      (filter (eligible ?fs)
                         (takeWhile (\<lambda>e. \<not> isl (fs_is_dir ?fs e))
                            (sort (map (\<lambda>n. [''work'', ''group''] @ [n]) [''inner'', ''deep''])))))"
      by blast
    then show ?thesis unfolding srt by simp
  qed
  have c: "find_repos ?fs 2 [''work'', ''group'', ''deep''] 2 = []"
    using find_repos_rules [of 2 2 ?fs "[''work'', ''group'', ''deep'']"] eval_work_tree_probes(4)
    by simp
  have d: "find_repos ?fs 3 [''work'', ''locked''] 1 = []"
    using find_repos_rules [of 1 3 ?fs "[''work'', ''locked'']" _ PermissionDenied]
      eval_work_tree_probes(2,3)
    by simp
  have e: "located ?fs 3 [''work''] 0 [''work'', ''group'', ''deep'', ''far'']"
    using find_repos_rules [of 0 3 ?fs "[''work'']"] eval_work_tree(1)
    by simp
  from a b c d e show ?thesis by blast
qed

subsection \<open>When no entry fails to be read\<close>

lemma visit_entries_all:
  assumes "\<And>e. e \<in> set es \<Longrightarrow> \<not> isl (fs_is_dir fs e)"
  shows "visit_entries f fs es acc = acc @ concat (map f (filter (eligible fs) es))"
proof -
  have all: "takeWhile (\<lambda>e. \<not> isl (fs_is_dir fs e)) es = es"
    using assms by (simp add: takeWhile_eq_all_conv)
  show ?thesis
    unfolding visit_entries_concat all ..
qed

text \<open>
  If \<open>is_dir\<close> raises on no entry, the locator misses nothing: a marked directory is
  returned whenever it lies within the limit below \<open>root\<close> along a chain of unmarked
  directories, each of which lists the next name of the chain, that name being a
  directory that does not start with a dot and is not skip-listed.
\<close>

lemma find_repos_complete:
  assumes "\<And>q. \<not> isl (fs_is_dir fs q)"
    and "depth + int (length names) \<le> max_depth"
    and "has_marker fs (root @ names) = Inr True"
    and "\<And>k. k < length names \<Longrightarrow>
           has_marker fs (root @ take k names) = Inr False
           \<and> (\<exists>ns. fs_iterdir fs (root @ take k names) = Inr ns \<and> names ! k \<in> set ns)
           \<and> eligible fs (root @ take (Suc k) names)"
  shows "root @ names \<in> set (find_repos fs max_depth root depth)"
  using assms(2-4)
proof (induction names arbitrary: root depth)
  case Nil
  then show ?case
    by (simp add: find_repos_marked)
next
  case (Cons n names)
  from Cons.prems(3) [of 0] obtain ns where
    m: "has_marker fs root = Inr False"
    and l: "fs_iterdir fs root = Inr ns"
    and n: "n \<in> set ns"
    and e: "eligible fs (root @ [n])"
    by auto
  from Cons.prems(1) have le: "depth \<le> max_depth"
    by simp
  have below: "(root @ [n]) @ names \<in> set (find_repos fs max_depth (root @ [n]) (depth + 1))"
  proof (rule Cons.IH)
    show "depth + 1 + int (length names) \<le> max_depth"
      using Cons.prems(1) by simp
    show "has_marker fs ((root @ [n]) @ names) = Inr True"
      using Cons.prems(2) by simp
    show "has_marker fs ((root @ [n]) @ take k names) = Inr False
        \<and> (\<exists>ns. fs_iterdir fs ((root @ [n]) @ take k names) = Inr ns \<and> names ! k \<in> set ns)
        \<and> eligible fs ((root @ [n]) @ take (Suc k) names)" if "k < length names" for k
      using Cons.prems(3) [of "Suc k"] that by simp
  qed
  have all: "takeWhile (\<lambda>e. \<not> isl (fs_is_dir fs e)) (sort (map (\<lambda>n. root @ [n]) ns))
      = sort (map (\<lambda>n. root @ [n]) ns)"
    using assms(1) by (simp add: takeWhile_eq_all_conv)
  have "root @ [n] \<in> set (filter (eligible fs) (sort (map (\<lambda>n. root @ [n]) ns)))"
    using n e by simp
  with below show ?case
    unfolding find_repos_unmarked [OF le m l] all by auto
qed

subsection \<open>An entry that cannot be read\<close>

lemma eval_cut_tree_all_read:
  "find_repos (fs_of (Dir [(''w'', Dir [(''a'', Dir [git_marker]), (''c'', Dir [git_marker])])]))
     3 [''w''] 0 = [[''w'', ''a''], [''w'', ''c'']]"
  by code_simp

text \<open>
  Claim C6, at its failing input. The directory \<open>/w\<close> of \<open>cut_tree\<close> holds no marker and
  its listing succeeds with \<open>a\<close>, \<open>b\<close>, \<open>c\<close>; \<open>a\<close> and \<open>c\<close> are directories that hold the
  marker, and \<open>is_dir\<close> raises \<open>PermissionError\<close> on \<open>b\<close>. The claim has the failure
  contribute nothing and the walk go on, so that \<open>/w/a\<close> and \<open>/w/c\<close> are both returned,
  as they are when \<open>b\<close> is absent. The \<open>try\<close> of the method encloses the whole loop: the
  exception leaves the loop, the handler passes, and with depth limit 3 the locator
  returns \<open>/w/a\<close> alone.
\<close>

theorem C6_walk_cut_short:
  "has_marker (fs_of cut_tree) [''w''] = Inr False
   \<and> fs_iterdir (fs_of cut_tree) [''w''] = Inr [''a'', ''b'', ''c'']
   \<and> fs_is_dir (fs_of cut_tree) [''w'', ''a''] = Inr True
   \<and> has_marker (fs_of cut_tree) [''w'', ''a''] = Inr True
   \<and> fs_is_dir (fs_of cut_tree) [''w'', ''b''] = Inl PermissionDenied
   \<and> fs_is_dir (fs_of cut_tree) [''w'', ''c''] = Inr True
   \<and> has_marker (fs_of cut_tree) [''w'', ''c''] = Inr True
   \<and> find_repos (fs_of cut_tree) 3 [''w''] 0 = [[''w'', ''a'']]"
  by code_simp

section \<open>Properties of the scan orchestrator\<close>

lemma get_repo_status_total: "\<exists>s rt'. get_repo_status rt p = Inr (s, rt')"
proof (cases "validity_rc rt p = 0")
  case True
  from get_repo_status_valid [OF True] show ?thesis by blast
next
  case False
  from get_repo_status_invalid [OF False] show ?thesis by blast
qed

lemma count_repo_fields:
  "repos (count_repo r s) = repos r @ [s]"
  "total_repos (count_repo r s) = total_repos r"
  "healthy_count (count_repo r s) = healthy_count r + (if is_healthy s then 1 else 0)"
  "warning_count (count_repo r s) = warning_count r + (if is_warning s then 1 else 0)"
  "critical_count (count_repo r s) = critical_count r + (if is_critical s then 1 else 0)"
  "error_count (count_repo r s) = error_count r + (if is_error s then 1 else 0)"
  by (simp_all add: count_repo_def Let_def is_healthy_def is_warning_def is_critical_def
      is_error_def)

lemma one_bucket:
  "(if is_healthy s then 1 else 0) + (if is_warning s then 1 else 0)
     + (if is_critical s then 1 else 0) + (if is_error s then 1 else (0::int)) = 1"
  by (simp add: is_healthy_def is_warning_def is_critical_def is_error_def)

lemma count_where_simps:
  "count_where P [] = 0"
  "count_where P (xs @ [x]) = count_where P xs + (if P x then 1 else 0)"
  "count_where P (x # xs) = (if P x then 1 else 0) + count_where P xs"
  by (simp_all add: count_where_def)

lemma count_where_partition:
  "count_where is_healthy rs + count_where is_warning rs + count_where is_critical rs
     + count_where is_error rs = int (length rs)"
proof (induction rs)
  case Nil
  then show ?case by (simp add: count_where_simps)
next
  case (Cons r rs)
  from one_bucket [of r] Cons.IH show ?case
    unfolding count_where_simps by simp
qed

lemma count_where_sort_key: "count_where P (sort_key k rs) = count_where P rs"
  by (simp add: count_where_def filter_sort)

lemma counted_count_repo: "counted r \<Longrightarrow> counted (count_repo r s)"
  by (simp add: counted_def count_repo_fields count_where_simps)

lemma scan_loop_total:
  "\<exists>res rt'. scan_loop rt ps r = Inr (res, rt')
      \<and> length (repos res) = length (repos r) + length ps
      \<and> total_repos res = total_repos r
      \<and> (counted r \<longrightarrow> counted res)"
proof (induction ps arbitrary: rt r)
  case Nil
  then show ?case by simp
next
  case (Cons p ps)
  obtain s rt1 where s: "get_repo_status rt p = Inr (s, rt1)"
    using get_repo_status_total by blast
  from Cons.IH [of rt1 "count_repo r s"] obtain res rt' where
    "scan_loop rt1 ps (count_repo r s) = Inr (res, rt')"
    "length (repos res) = length (repos (count_repo r s)) + length ps"
    "total_repos res = total_repos (count_repo r s)"
    "counted (count_repo r s) \<longrightarrow> counted res"
    by blast
  with s counted_count_repo [of r s] show ?case
    by (simp add: count_repo_fields)
qed

lemma counted_sum:
  "counted r \<Longrightarrow>
     healthy_count r + warning_count r + critical_count r + error_count r
       = int (length (repos r))"
  using count_where_partition [of "repos r"] by (simp add: counted_def)

lemma scan_result_shape:
  assumes "scan fs max_depth rt now_str elapsed_ms root_dir_arg = Inr (res, rt')"
  shows "length (repos res) = length (find_repos fs max_depth (fs_resolve fs root_dir_arg) 0)
       \<and> total_repos res = int (length (repos res)) \<and> counted res"
proof -
  define root where "root = fs_resolve fs root_dir_arg"
  define paths where "paths = find_repos fs max_depth root 0"
  define r0 where
    "r0 = (new_ScanResult (path_str root) now_str)\<lparr>total_repos := int (length paths)\<rparr>"
  obtain r1 rt1 where l: "scan_loop rt paths r0 = Inr (r1, rt1)"
    and n: "length (repos r1) = length (repos r0) + length paths"
    and t: "total_repos r1 = total_repos r0"
    and c: "counted r0 \<longrightarrow> counted r1"
    using scan_loop_total [of rt paths r0] by blast
  have c0: "counted r0" and e0: "repos r0 = []" and t0: "total_repos r0 = int (length paths)"
    by (simp_all add: r0_def new_ScanResult_def counted_def count_where_simps)
  from assms l have res: "res = r1\<lparr>scan_duration_ms := elapsed_ms,
                 repos := sort_key (\<lambda>r. (health_score r, name r)) (repos r1)\<rparr>"
    by (simp add: scan_def Let_def root_def [symmetric] paths_def [symmetric]
        r0_def [symmetric] split: if_splits sum.splits bool.splits)
  from c c0 have "counted r1" by simp
  then have "counted res"
    by (simp add: res counted_def count_where_sort_key)
  with n t e0 t0 show ?thesis
    by (simp add: res paths_def root_def)
qed

text \<open>
  Claim C4. The scan loop over any sequence of repository paths returns; the result
  holds one status per path, \<open>total_repos\<close> is their number, each of the four counters is
  the number of statuses in its bucket, and the four counters sum to \<open>total_repos\<close>. The
  same holds of what \<open>scan\<close> returns, whose sequence is that of the locator, sorted. Every
  status is in exactly one of the four buckets.
\<close>

theorem C4_buckets_partition:
  "(\<exists>res rt'.
       scan_loop rt repo_paths
          ((new_ScanResult rd t)\<lparr>total_repos := int (length repo_paths)\<rparr>) = Inr (res, rt')
       \<and> length (repos res) = length repo_paths
       \<and> total_repos res = int (length (repos res))
       \<and> healthy_count res = count_where is_healthy (repos res)
       \<and> warning_count res = count_where is_warning (repos res)
       \<and> critical_count res = count_where is_critical (repos res)
       \<and> error_count res = count_where is_error (repos res)
       \<and> healthy_count res + warning_count res + critical_count res + error_count res
           = total_repos res)
   \<and> (scan fs max_depth rt now_str elapsed_ms root_dir_arg = Inr (res2, rt2) \<longrightarrow>
         length (repos res2) = length (find_repos fs max_depth (fs_resolve fs root_dir_arg) 0)
       \<and> total_repos res2 = int (length (repos res2))
       \<and> healthy_count res2 = count_where is_healthy (repos res2)
       \<and> warning_count res2 = count_where is_warning (repos res2)
       \<and> critical_count res2 = count_where is_critical (repos res2)
       \<and> error_count res2 = count_where is_error (repos res2)
       \<and> healthy_count res2 + warning_count res2 + critical_count res2 + error_count res2
           = total_repos res2)
   \<and> (if is_healthy s then 1 else 0) + (if is_warning s then 1 else 0)
       + (if is_critical s then 1 else 0) + (if is_error s then 1 else (0::int)) = 1"
proof (intro conjI impI)
  define r0 where "r0 = (new_ScanResult rd t)\<lparr>total_repos := int (length repo_paths)\<rparr>"
  obtain r1 rt1 where l: "scan_loop rt repo_paths r0 = Inr (r1, rt1)"
    and n: "length (repos r1) = length (repos r0) + length repo_paths"
    and t: "total_repos r1 = total_repos r0"
    and c: "counted r0 \<longrightarrow> counted r1"
    using scan_loop_total [of rt repo_paths r0] by blast
  have c0: "counted r0" and e0: "repos r0 = []"
    and t0: "total_repos r0 = int (length repo_paths)"
    by (simp_all add: r0_def new_ScanResult_def counted_def count_where_simps)
  from c c0 have c1: "counted r1" by simp
  from n e0 have n1: "length (repos r1) = length repo_paths" by simp
  from t t0 n1 have t1: "total_repos r1 = int (length (repos r1))" by simp
  from l n1 t1 c1 counted_sum [OF c1]
  show "\<exists>res rt'.
       scan_loop rt repo_paths
          ((new_ScanResult rd t)\<lparr>total_repos := int (length repo_paths)\<rparr>) = Inr (res, rt')
       \<and> length (repos res) = length repo_paths
       \<and> total_repos res = int (length (repos res))
       \<and> healthy_count res = count_where is_healthy (repos res)
       \<and> warning_count res = count_where is_warning (repos res)
       \<and> critical_count res = count_where is_critical (repos res)
       \<and> error_count res = count_where is_error (repos res)
       \<and> healthy_count res + warning_count res + critical_count res + error_count res
           = total_repos res"
    unfolding r0_def counted_def by (intro exI [of _ r1] exI [of _ rt1]) simp
next
  assume a: "scan fs max_depth rt now_str elapsed_ms root_dir_arg = Inr (res2, rt2)"
  from scan_result_shape [OF a]
  have s: "length (repos res2) = length (find_repos fs max_depth (fs_resolve fs root_dir_arg) 0)"
    "total_repos res2 = int (length (repos res2))" "counted res2"
    by simp_all
  show "length (repos res2) = length (find_repos fs max_depth (fs_resolve fs root_dir_arg) 0)"
    by (rule s(1))
  show "total_repos res2 = int (length (repos res2))" by (rule s(2))
  show "healthy_count res2 = count_where is_healthy (repos res2)"
    "warning_count res2 = count_where is_warning (repos res2)"
    "critical_count res2 = count_where is_critical (repos res2)"
    "error_count res2 = count_where is_error (repos res2)"
    using s(3) by (simp_all add: counted_def)
  show "healthy_count res2 + warning_count res2 + critical_count res2 + error_count res2
           = total_repos res2"
    using counted_sum [OF s(3)] s(2) by simp
next
  show "(if is_healthy s then 1 else 0) + (if is_warning s then 1 else 0)
       + (if is_critical s then 1 else 0) + (if is_error s then 1 else (0::int)) = 1"
    by (rule one_bucket)
qed

lemma eval_work_scan:
  "map_sum id fst (scan (fs_of work_tree) 3 rt_clean ''2026-01-11 01:00:00'' 42 ''/work'')
     = Inr work_scan"
  by code_simp

theorem C4_buckets_partition_witness:
  "\<exists>rt'. scan (fs_of work_tree) 3 rt_clean ''2026-01-11 01:00:00'' 42 ''/work''
            = Inr (work_scan, rt')
     \<and> length (repos work_scan) = 3
     \<and> total_repos work_scan = 3
     \<and> count_where is_healthy (repos work_scan) = 1
     \<and> count_where is_warning (repos work_scan) = 0
     \<and> count_where is_critical (repos work_scan) = 0
     \<and> count_where is_error (repos work_scan) = 2
     \<and> healthy_count work_scan + warning_count work_scan + critical_count work_scan
          + error_count work_scan = total_repos work_scan"
proof -
  from eval_work_scan obtain rt' where
    r: "scan (fs_of work_tree) 3 rt_clean ''2026-01-11 01:00:00'' 42 ''/work''
          = Inr (work_scan, rt')"
    by (cases "scan (fs_of work_tree) 3 rt_clean ''2026-01-11 01:00:00'' 42 ''/work''") auto
  have v: "healthy_count work_scan = 1" "warning_count work_scan = 0"
    "critical_count work_scan = 0" "error_count work_scan = 2" "total_repos work_scan = 3"
    "length (repos work_scan) = 3"
    by (simp_all add: work_scan_def)
  from C4_buckets_partition [of rt_clean "[]" "[]" "[]" "fs_of work_tree" 3
      "''2026-01-11 01:00:00''" 42 "''/work''" work_scan rt' clean_status] r
  have "healthy_count work_scan = count_where is_healthy (repos work_scan)
       \<and> warning_count work_scan = count_where is_warning (repos work_scan)
       \<and> critical_count work_scan = count_where is_critical (repos work_scan)
       \<and> error_count work_scan = count_where is_error (repos work_scan)
       \<and> healthy_count work_scan + warning_count work_scan + critical_count work_scan
          + error_count work_scan = total_repos work_scan"
    by blast
  with r v show ?thesis by (intro exI [of _ rt']) simp
qed

end
